theory Spec2Isabelle
  imports Complex_Main "HOL-Library.AList" "HOL-Library.Sublist"
begin

section \<open>Go values used by the session layer\<close>

text \<open>
  A Go \<^verbatim>\<open>string\<close> is a sequence of bytes: \<^typ>\<open>string\<close>. A Go map is modelled by the
  list of its entries, in the order in which a \<^verbatim>\<open>range\<close> loop visits them (Go leaves
  that order open, so every statement below is made for every order); its keys are
  distinct. \<^verbatim>\<open>m[k] = v\<close> is \<^const>\<open>AList.update\<close>, a lookup is \<^const>\<open>map_of\<close>.
  \<^verbatim>\<open>http.Header\<close> and \<^verbatim>\<open>url.Values\<close> are both \<^verbatim>\<open>map[string][]string\<close>.
\<close>

type_synonym rune = nat
type_synonym header = "(string \<times> string list) list"
type_synonym url_values = "(string \<times> string list) list"

subsection \<open>Ranging over a string: UTF-8 decoding\<close>

text \<open>
  \<^verbatim>\<open>for _, r := range v\<close> yields the code points of \<^verbatim>\<open>v\<close>; an invalid UTF-8 sequence
  yields U+FFFD and the loop advances by one byte. \<open>DecodeRune\<close> is
  \<^verbatim>\<open>utf8.DecodeRuneInString\<close>: the first code point and its width in bytes.
\<close>

definition RuneError :: rune where
  "RuneError = 0xFFFD"

definition locb :: nat where "locb = 0x80"
definition hicb :: nat where "hicb = 0xBF"

definition accept_lo :: "nat \<Rightarrow> nat" where
  "accept_lo s0 = (if s0 = 0xE0 then 0xA0 else if s0 = 0xF0 then 0x90 else locb)"

definition accept_hi :: "nat \<Rightarrow> nat" where
  "accept_hi s0 = (if s0 = 0xED then 0x9F else if s0 = 0xF4 then 0x8F else hicb)"

definition seq_size :: "nat \<Rightarrow> nat" where
  "seq_size s0 = (if 0xC2 \<le> s0 \<and> s0 \<le> 0xDF then 2
                  else if 0xE0 \<le> s0 \<and> s0 \<le> 0xEF then 3
                  else if 0xF0 \<le> s0 \<and> s0 \<le> 0xF4 then 4 else 1)"

definition DecodeRune :: "nat list \<Rightarrow> rune \<times> nat" where
  "DecodeRune s =
     (case s of [] \<Rightarrow> (RuneError, 0)
      | s0 # rest \<Rightarrow>
        if s0 < 0x80 then (s0, 1)
        else if seq_size s0 = 1 then (RuneError, 1)
        else if length s < seq_size s0 then (RuneError, 1)
        else let s1 = s ! 1 in
          if s1 < accept_lo s0 \<or> accept_hi s0 < s1 then (RuneError, 1)
          else if seq_size s0 \<le> 2 then ((s0 - 0xC0) * 64 + (s1 - 0x80), 2)
          else let s2 = s ! 2 in
            if s2 < locb \<or> hicb < s2 then (RuneError, 1)
            else if seq_size s0 \<le> 3
              then ((s0 - 0xE0) * 4096 + (s1 - 0x80) * 64 + (s2 - 0x80), 3)
            else let s3 = s ! 3 in
              if s3 < locb \<or> hicb < s3 then (RuneError, 1)
              else ((s0 - 0xF0) * 262144 + (s1 - 0x80) * 4096
                      + (s2 - 0x80) * 64 + (s3 - 0x80), 4))"

text \<open>
  The loop over a string. The first argument counts the bytes of the current code
  point that are still to be stepped over.
\<close>

primrec range_runes :: "nat \<Rightarrow> nat list \<Rightarrow> rune list" where
  "range_runes k [] = []"
| "range_runes k (b # bs) =
     (if 0 < k then range_runes (k - 1) bs
      else fst (DecodeRune (b # bs)) # range_runes (snd (DecodeRune (b # bs)) - 1) bs)"

definition runes :: "string \<Rightarrow> rune list" where
  "runes s = range_runes 0 (map of_char s)"

subsection \<open>Quoting a string: the verb \<^verbatim>\<open>%q\<close>\<close>

text \<open>
  \<^verbatim>\<open>fmt\<close> formats a string under \<^verbatim>\<open>%q\<close> with \<^verbatim>\<open>strconv.Quote\<close>: the string between
  double quotes, with \<^verbatim>\<open>"\<close> and \<^verbatim>\<open>\\<close> backslashed, printable code points copied, and
  every other code point written as an escape sequence. Which code points above
  U+00FF are printable is decided by tables of the Unicode standard; they are the
  parameter \<open>T\<close>.
\<close>

definition lowerhex :: string where
  "lowerhex = ''0123456789abcdef''"

definition hexdigit :: "nat \<Rightarrow> char" where
  "hexdigit n = lowerhex ! (n mod 16)"

definition IsPrint :: "(rune \<Rightarrow> bool) \<Rightarrow> rune \<Rightarrow> bool" where
  "IsPrint T r =
     (if r \<le> 0xFF then
        (if 0x20 \<le> r \<and> r \<le> 0x7E then True
         else if 0xA1 \<le> r \<and> r \<le> 0xFF then r \<noteq> 0xAD
         else False)
      else T r)"

definition AppendRune :: "rune \<Rightarrow> string" where
  "AppendRune r =
     (if r \<le> 0x7F then [char_of r]
      else if r \<le> 0x7FF then [char_of (0xC0 + r div 64), char_of (0x80 + r mod 64)]
      else if r > 0x10FFFF \<or> (0xD800 \<le> r \<and> r \<le> 0xDFFF)
        then [char_of (0xEF::nat), char_of (0xBF::nat), char_of (0xBD::nat)]
      else if r \<le> 0xFFFF
        then [char_of (0xE0 + r div 4096), char_of (0x80 + (r div 64) mod 64),
              char_of (0x80 + r mod 64)]
      else [char_of (0xF0 + r div 262144), char_of (0x80 + (r div 4096) mod 64),
            char_of (0x80 + (r div 64) mod 64), char_of (0x80 + r mod 64)])"

definition backslash :: char where
  "backslash = CHR 0x5C"

definition dquote :: char where
  "dquote = CHR 0x22"

definition appendEscapedRune :: "(rune \<Rightarrow> bool) \<Rightarrow> rune \<Rightarrow> string" where
  "appendEscapedRune T r =
     (if r = of_char dquote \<or> r = of_char backslash then [backslash, char_of r]
      else if IsPrint T r then AppendRune r
      else if r = 7 then [backslash, CHR ''a'']
      else if r = 8 then [backslash, CHR ''b'']
      else if r = 12 then [backslash, CHR ''f'']
      else if r = 10 then [backslash, CHR ''n'']
      else if r = 13 then [backslash, CHR ''r'']
      else if r = 9 then [backslash, CHR ''t'']
      else if r = 11 then [backslash, CHR ''v'']
      else if r < 0x20 \<or> r = 0x7F
        then [backslash, CHR ''x'', hexdigit (r div 16), hexdigit r]
      else if r > 0x10FFFF \<or> (0xD800 \<le> r \<and> r \<le> 0xDFFF)
        then [backslash, CHR ''u'', CHR ''f'', CHR ''f'', CHR ''f'', CHR ''d'']
      else if r < 0x10000
        then [backslash, CHR ''u'', hexdigit (r div 4096), hexdigit (r div 256),
              hexdigit (r div 16), hexdigit r]
      else [backslash, CHR ''U'', hexdigit (r div 268435456), hexdigit (r div 16777216),
            hexdigit (r div 1048576), hexdigit (r div 65536), hexdigit (r div 4096),
            hexdigit (r div 256), hexdigit (r div 16), hexdigit r])"

text \<open>
  The loop of \<^verbatim>\<open>strconv.Quote\<close> over the bytes of the string; a byte that does not
  start a valid UTF-8 sequence is written as \<^verbatim>\<open>\x\<close> and two hexadecimal digits.
\<close>

primrec quote_loop :: "(rune \<Rightarrow> bool) \<Rightarrow> nat \<Rightarrow> nat list \<Rightarrow> string" where
  "quote_loop T k [] = []"
| "quote_loop T k (b # bs) =
     (if 0 < k then quote_loop T (k - 1) bs
      else let (r, width) = (if b \<ge> 0x80 then DecodeRune (b # bs) else (b, 1)) in
        (if width = 1 \<and> r = RuneError
         then [backslash, CHR ''x'', hexdigit (b div 16), hexdigit b]
         else appendEscapedRune T r) @ quote_loop T (width - 1) bs)"

definition Quote :: "(rune \<Rightarrow> bool) \<Rightarrow> string \<Rightarrow> string" where
  "Quote T s = [dquote] @ quote_loop T 0 (map of_char s) @ [dquote]"

subsection \<open>Errors\<close>

text \<open>
  Every error the package builds is a constructor; an error that comes out of the
  standard library (JSON syntax, network, URL parsing) is carried by its message.
  \<open>UrlError op url err\<close> is the \<^verbatim>\<open>*url.Error\<close> in which \<^verbatim>\<open>http.Client.Do\<close> returns the
  error \<open>err\<close> of its transport; its message is \<^verbatim>\<open>fmt.Sprintf("%s %q: %s", op, url, err)\<close>.
\<close>

datatype error =
    InvalidCharacters string
  | InvalidHeader error
  | ReadingBody error
  | ReadingEnvelope error
  | UnmarshallingResult error
  | LoginReadingResponse
  | InvalidLoginResponse string
  | MissingTFA
  | StatusError string
  | UnmarshalTypeError string
  | UrlError string string error
  | LibError string

text \<open>
  The message of an error (its method \<^verbatim>\<open>Error()\<close>), following the format strings of
  the source. The message of a \<open>StatusError\<close> is the status line run through the verb
  processing of \<^verbatim>\<open>fmt.Errorf\<close>, and the message of an \<open>UnmarshalTypeError\<close> is
  built by \<^verbatim>\<open>encoding/json\<close>; neither has a model here: those equations are left out.
\<close>

fun Error :: "(rune \<Rightarrow> bool) \<Rightarrow> error \<Rightarrow> string" where
  "Error T (InvalidCharacters key) =
     ''value for key '' @ Quote T key @ '' contains invalid characters''"
| "Error T (InvalidHeader err) = ''invalid header: '' @ Error T err"
| "Error T (ReadingBody err) = ''error reading response body: '' @ Error T err"
| "Error T (ReadingEnvelope err) = ''error reading response envelope: '' @ Error T err"
| "Error T (UnmarshallingResult err) = ''error unmarshalling result '' @ Error T err"
| "Error T LoginReadingResponse = ''Login error reading response''"
| "Error T (InvalidLoginResponse dr) =
     ''invalid login response:'' @ [CHR 0x0A] @ ''-----'' @ [CHR 0x0A] @ dr
       @ [CHR 0x0A] @ ''-----''"
| "Error T MissingTFA = ''missing TFA code''"
| "Error T (UrlError op url err) = op @ '' '' @ Quote T url @ '': '' @ Error T err"
| "Error T (LibError msg) = msg"

section \<open>Header validation\<close>

text \<open>
  \<^verbatim>\<open>validateHeader\<close>: three nested iterations, over the entries, over the values of an
  entry, over the code points of a value; the first code point below 32 or equal to
  127 ends the function with an error that carries the key.
\<close>

definition invalid_rune :: "rune \<Rightarrow> bool" where
  "invalid_rune r \<longleftrightarrow> r < 32 \<or> r = 127"

fun validateHeader :: "header \<Rightarrow> error option" where
  "validateHeader [] = None"
| "validateHeader ((key, vals) # h) =
     (if list_ex (\<lambda>v. list_ex invalid_rune (runes v)) vals
      then Some (InvalidCharacters key)
      else validateHeader h)"

section \<open>Readers, requests, responses and the process-wide flag\<close>

text \<open>
  An \<^verbatim>\<open>io.Reader\<close> is the bytes it has still to deliver and the error with which the
  stream ends (\<open>None\<close> for a clean end of file). \<^verbatim>\<open>io.ReadAll\<close> returns what it read
  and leaves the reader at its end.
\<close>

datatype reader = Reader string "error option"

definition bytes_NewReader :: "string \<Rightarrow> reader" where
  "bytes_NewReader b = Reader b None"

fun ReadAll :: "reader \<Rightarrow> (error + string) \<times> reader" where
  "ReadAll (Reader b None) = (Inr b, Reader [] None)"
| "ReadAll (Reader b (Some err)) = (Inl err, Reader [] (Some err))"

text \<open>
  The fields of \<^verbatim>\<open>http.Request\<close> and \<^verbatim>\<open>http.Response\<close> that the package touches. The
  body of a response is a parameter of the record: \<^verbatim>\<open>net/http\<close> hands back responses
  whose body is never \<^verbatim>\<open>nil\<close> (a \<open>reader\<close>), the decoders accept any
  \<^verbatim>\<open>*http.Response\<close> and test the body for \<^verbatim>\<open>nil\<close> (a \<open>reader option\<close>).
\<close>

record request =
  Method :: string
  URL :: string
  Header :: header
  ReqBody :: "reader option"

record 'b http_response =
  Status :: string
  StatusCode :: int
  Body :: 'b

text \<open>
  \<^verbatim>\<open>var Debug = new(bool)\<close> and the output of \<^verbatim>\<open>log.Printf\<close> are the state of the
  process. The HTTP client is code outside the package that runs in that state; it
  is a function of the state in which it is called and of the request, and returns
  a transport error or a response.
\<close>

record globals =
  Debug :: bool
  log_output :: "string list"

type_synonym round_tripper = "globals \<Rightarrow> request \<Rightarrow> error + reader http_response"

record Session =
  httpClient :: round_tripper
  ApiUrl :: string
  AuthTicket :: string
  CsrfToken :: string
  AuthToken :: string
  Headers :: header

subsection \<open>JSON values\<close>

text \<open>
  A JSON document, as \<^verbatim>\<open>encoding/json\<close> sees it once the bytes have passed its
  syntax check: the members of an object in the order of the text, duplicates
  included; a number by its value.
\<close>

datatype json =
    JNull
  | JBool bool
  | JNumber real
  | JString string
  | JArray "json list"
  | JObject "(string \<times> json) list"

subsection \<open>The standard library\<close>

text \<open>
  What the package calls in the standard library and this file does not define is a
  field of \<open>lib\<close>: the JSON grammar (\<open>json_parse\<close> returns the value, or the message
  of the syntax error), the case-insensitive comparison with which
  \<^verbatim>\<open>encoding/json\<close> matches an object key against a struct field, the checks of
  \<^verbatim>\<open>http.NewRequest\<close> on method and URL, \<^verbatim>\<open>url.Values.Encode\<close>, and the text of
  \<^verbatim>\<open>httputil.DumpRequestOut\<close> and \<^verbatim>\<open>httputil.DumpResponse\<close> (of status, status code
  and body).
\<close>

record lib =
  json_parse :: "string \<Rightarrow> string + json"
  EqualFold :: "string \<Rightarrow> string \<Rightarrow> bool"
  NewRequest_error :: "string \<Rightarrow> string \<Rightarrow> error option"
  Encode :: "url_values \<Rightarrow> string"
  DumpRequestOut :: "request \<Rightarrow> string"
  DumpResponse_text :: "string \<Rightarrow> int \<Rightarrow> string \<Rightarrow> string"

section \<open>Secure transport and session construction\<close>










section \<open>Parameter encoder\<close>

text \<open>
  A value of type \<^verbatim>\<open>interface{}\<close> in a parameter map, by its dynamic type: \<^verbatim>\<open>bool\<close>,
  \<^verbatim>\<open>string\<close>, \<^verbatim>\<open>int\<close>, \<^verbatim>\<open>nil\<close>, or any other type, a value of which is represented by
  the text that \<^verbatim>\<open>%v\<close> prints for it.
\<close>

datatype iface = IBool bool | IString string | IInt int | INil | IOther string

fun digits :: "nat \<Rightarrow> string" where
  "digits n = (if n < 10 then [char_of (48 + n)]
               else digits (n div 10) @ [char_of (48 + n mod 10)])"

definition Itoa :: "int \<Rightarrow> string" where
  "Itoa i = (if i < 0 then CHR ''-'' # digits (nat (- i)) else digits (nat i))"

text \<open>\<^verbatim>\<open>fmt.Sprintf("%v", x)\<close>.\<close>

fun Sprintf_v :: "iface \<Rightarrow> string" where
  "Sprintf_v (IBool b) = (if b then ''true'' else ''false'')"
| "Sprintf_v (IString str) = str"
| "Sprintf_v (IInt i) = Itoa i"
| "Sprintf_v INil = ''<nil>''"
| "Sprintf_v (IOther shown) = shown"

text \<open>
  Modelled from the spec: \<^verbatim>\<open>inArray\<close> is defined in a file of the package that is not
  among the sources; the spec calls its use "unless the key is explicitly
  allow-listed", so it is membership of the key in the list.
\<close>

definition inArray :: "string list \<Rightarrow> string \<Rightarrow> bool" where
  "inArray arr str \<longleftrightarrow> str \<in> set arr"

text \<open>\<^verbatim>\<open>url.Values.Set\<close>.\<close>

definition Values_Set :: "url_values \<Rightarrow> string \<Rightarrow> string \<Rightarrow> url_values" where
  "Values_Set vals k v = AList.update k [v] vals"

text \<open>The body of the loop of \<^verbatim>\<open>ParamsToValuesWithAllEmpty\<close>, and the loop.\<close>

definition param_step ::
  "string list \<Rightarrow> bool \<Rightarrow> string \<times> iface \<Rightarrow> url_values \<Rightarrow> url_values" where
  "param_step allowedEmpty allowEmpty entry vals =
     (let k = fst entry;
          v = (case snd entry of
                 IBool intrV \<Rightarrow> if intrV then ''1'' else ''0''
               | intrV \<Rightarrow> Sprintf_v intrV)
      in if allowEmpty then Values_Set vals k v
         else if v \<noteq> [] \<or> inArray allowedEmpty k then Values_Set vals k v
         else vals)"

definition ParamsToValuesWithAllEmpty ::
  "(string \<times> iface) list \<Rightarrow> string list \<Rightarrow> bool \<Rightarrow> url_values" where
  "ParamsToValuesWithAllEmpty params allowedEmpty allowEmpty =
     fold (param_step allowedEmpty allowEmpty) params []"

definition ParamsToValuesWithEmpty :: "(string \<times> iface) list \<Rightarrow> string list \<Rightarrow> url_values" where
  "ParamsToValuesWithEmpty params allowedEmpty =
     ParamsToValuesWithAllEmpty params allowedEmpty False"

definition ParamsToValues :: "(string \<times> iface) list \<Rightarrow> url_values" where
  "ParamsToValues params = ParamsToValuesWithEmpty params []"

definition ParamsToBody :: "lib \<Rightarrow> (string \<times> iface) list \<Rightarrow> string" where
  "ParamsToBody L params = Encode L (ParamsToValuesWithEmpty params [])"

definition ParamsToBodyWithEmpty :: "lib \<Rightarrow> (string \<times> iface) list \<Rightarrow> string list \<Rightarrow> string" where
  "ParamsToBodyWithEmpty L params allowedEmpty =
     Encode L (ParamsToValuesWithEmpty params allowedEmpty)"

definition ParamsToBodyWithAllEmpty :: "lib \<Rightarrow> (string \<times> iface) list \<Rightarrow> string" where
  "ParamsToBodyWithAllEmpty L params = Encode L (ParamsToValuesWithAllEmpty params [] True)"

text \<open>
  The reference definition of the encoder, in the words of the specification: a
  boolean encodes as \<open>1\<close> or \<open>0\<close>, every other value as its default string
  representation; in the default mode a key whose encoded value is empty is absent
  unless it is allow-listed; in allow-all-empty mode every key is kept. One value
  per key.
\<close>

definition spec_encode_value :: "iface \<Rightarrow> string" where
  "spec_encode_value x =
     (case x of IBool True \<Rightarrow> ''1'' | IBool False \<Rightarrow> ''0'' | other \<Rightarrow> Sprintf_v other)"

definition spec_encoder ::
  "(string \<rightharpoonup> iface) \<Rightarrow> string list \<Rightarrow> bool \<Rightarrow> (string \<rightharpoonup> string list)" where
  "spec_encoder params allowedEmpty allowEmpty k =
     (case params k of
        None \<Rightarrow> None
      | Some x \<Rightarrow>
          if allowEmpty \<or> spec_encode_value x \<noteq> [] \<or> k \<in> set allowedEmpty
          then Some [spec_encode_value x] else None)"

section \<open>Response decoder\<close>

text \<open>
  \<^verbatim>\<open>json.Unmarshal(data, v)\<close> checks the syntax of \<open>data\<close> and then stores the value in
  the destination, by reflection on the destination's type. The second step is the
  argument \<open>store\<close>: from the JSON value and the destination as it is, the
  destination afterwards and the error. Empty input is a syntax error.
\<close>

definition json_Unmarshal ::
  "lib \<Rightarrow> (json \<Rightarrow> 'a \<Rightarrow> 'a \<times> error option) \<Rightarrow> string \<Rightarrow> 'a \<Rightarrow> 'a \<times> error option" where
  "json_Unmarshal L store data v =
     (if data = [] then (v, Some (LibError ''unexpected end of JSON input''))
      else case json_parse L data of
             Inl msg \<Rightarrow> (v, Some (LibError msg))
           | Inr j \<Rightarrow> store j v)"

text \<open>
  \<^verbatim>\<open>decodeResponse\<close>. It leaves the body of the response read to its end; the
  response afterwards is not part of the result here.
\<close>

definition decodeResponse ::
  "lib \<Rightarrow> (json \<Rightarrow> 'a \<Rightarrow> 'a \<times> error option) \<Rightarrow> reader option http_response \<Rightarrow> 'a
     \<Rightarrow> 'a \<times> error option" where
  "decodeResponse L store resp v =
     (case Body resp of
        None \<Rightarrow> (v, None)
      | Some body \<Rightarrow>
          (case fst (ReadAll body) of
             Inl err \<Rightarrow> (v, Some (ReadingBody err))
           | Inr rbody \<Rightarrow> json_Unmarshal L store rbody v))"

text \<open>
  The type error of \<^verbatim>\<open>encoding/json\<close> is \<open>UnmarshalTypeError\<close> with the name of the
  JSON kind it met; the text of that error is not modelled.
\<close>

fun json_kind :: "json \<Rightarrow> string" where
  "json_kind JNull = ''null''"
| "json_kind (JBool b) = ''bool''"
| "json_kind (JNumber n) = ''number''"
| "json_kind (JString str) = ''string''"
| "json_kind (JArray xs) = ''array''"
| "json_kind (JObject ms) = ''object''"

text \<open>
  Storing into \<^verbatim>\<open>map[string]interface{}\<close> (\<open>None\<close> is the \<^verbatim>\<open>nil\<close> map): the members of
  an object are set one after the other, so a later member replaces an earlier one
  with the same key; \<^verbatim>\<open>null\<close> leaves the destination as it is; any other value is a
  type error.
\<close>

definition go_map :: "(string \<times> json) list \<Rightarrow> (string \<times> json) list \<Rightarrow> (string \<times> json) list" where
  "go_map ms m = fold (\<lambda>member acc. AList.update (fst member) (snd member) acc) ms m"

fun store_map ::
  "json \<Rightarrow> (string \<times> json) list option \<Rightarrow> (string \<times> json) list option \<times> error option" where
  "store_map (JObject ms) jbody =
     (Some (go_map ms (case jbody of None \<Rightarrow> [] | Some m \<Rightarrow> m)), None)"
| "store_map JNull jbody = (jbody, None)"
| "store_map j jbody = (jbody, Some (UnmarshalTypeError (json_kind j)))"

definition ResponseJSON ::
  "lib \<Rightarrow> reader option http_response \<Rightarrow> (string \<times> json) list option \<times> error option" where
  "ResponseJSON L resp = decodeResponse L store_map resp None"

text \<open>
  Storing into the struct \<open>intermediate\<close> of \<^verbatim>\<open>TypedResponse\<close>, whose only content is
  \<^verbatim>\<open>Data.Result\<close>, a \<^verbatim>\<open>json.RawMessage\<close>: \<open>None\<close> while it is empty, else the value
  whose text it holds. A key belongs to a field when it equals the field's name or
  equals it under the case-insensitive comparison. A member for \<^verbatim>\<open>data\<close> that is an
  object is stored member by member, \<^verbatim>\<open>null\<close> is skipped, anything else is a type
  error; the decoder goes on after a type error and reports the first one.
\<close>

definition field_match :: "lib \<Rightarrow> string \<Rightarrow> string \<Rightarrow> bool" where
  "field_match L name key \<longleftrightarrow> key = name \<or> EqualFold L key name"

definition store_Data :: "lib \<Rightarrow> (string \<times> json) list \<Rightarrow> json option \<Rightarrow> json option" where
  "store_Data L ms Result =
     fold (\<lambda>member res. if field_match L ''result'' (fst member) then Some (snd member) else res)
       ms Result"

definition first_error :: "error option \<Rightarrow> error \<Rightarrow> error option" where
  "first_error saved err = (case saved of None \<Rightarrow> Some err | Some e \<Rightarrow> Some e)"

definition store_intermediate_member ::
  "lib \<Rightarrow> string \<times> json \<Rightarrow> json option \<times> error option \<Rightarrow> json option \<times> error option" where
  "store_intermediate_member L member st =
     (if field_match L ''data'' (fst member) then
        (case snd member of
           JObject ms \<Rightarrow> (store_Data L ms (fst st), snd st)
         | JNull \<Rightarrow> st
         | j \<Rightarrow> (fst st, first_error (snd st) (UnmarshalTypeError (json_kind j))))
      else st)"

definition store_intermediate :: "lib \<Rightarrow> json \<Rightarrow> json option \<Rightarrow> json option \<times> error option" where
  "store_intermediate L j Result =
     (case j of
        JObject ms \<Rightarrow> fold (store_intermediate_member L) ms (Result, None)
      | JNull \<Rightarrow> (Result, None)
      | other \<Rightarrow> (Result, Some (UnmarshalTypeError (json_kind other))))"

text \<open>
  \<^verbatim>\<open>json.Unmarshal(intermediate.Data.Result, v)\<close> on the raw message: the empty
  message is the empty input; otherwise its text is the text of the value it holds.
\<close>

definition Unmarshal_RawMessage ::
  "(json \<Rightarrow> 'a \<Rightarrow> 'a \<times> error option) \<Rightarrow> json option \<Rightarrow> 'a \<Rightarrow> 'a \<times> error option" where
  "Unmarshal_RawMessage store raw v =
     (case raw of
        None \<Rightarrow> (v, Some (LibError ''unexpected end of JSON input''))
      | Some j \<Rightarrow> store j v)"

definition TypedResponse ::
  "lib \<Rightarrow> (json \<Rightarrow> 'a \<Rightarrow> 'a \<times> error option) \<Rightarrow> reader option http_response \<Rightarrow> 'a
     \<Rightarrow> 'a \<times> error option" where
  "TypedResponse L store resp v =
     (case decodeResponse L (store_intermediate L) resp None of
        (intermediate, Some err) \<Rightarrow> (v, Some (ReadingEnvelope err))
      | (intermediate, None) \<Rightarrow>
          (case Unmarshal_RawMessage store intermediate v of
             (v', Some err) \<Rightarrow> (v', Some (UnmarshallingResult err))
           | (v', None) \<Rightarrow> (v', None)))"

section \<open>Session: building and sending requests\<close>

text \<open>
  The argument \<^verbatim>\<open>headers *http.Header\<close>: \<^verbatim>\<open>nil\<close>, the address of the session's own
  \<^verbatim>\<open>Headers\<close> (as \<^verbatim>\<open>Login\<close> passes it), or the address of another map.
  \<^verbatim>\<open>req.Header = *headers\<close> makes the request share the map, so what is then written
  into the header of the request is written into the session's map in the second
  case: the functions return the session afterwards. A map of the caller is
  changed likewise; it can be read off the request. The maps themselves are not
  \<^verbatim>\<open>nil\<close>: \<^verbatim>\<open>NewSession\<close> and \<^verbatim>\<open>http.NewRequest\<close> create them, and writing into a \<^verbatim>\<open>nil\<close>
  map is outside the model.
\<close>

datatype headers_arg = NilHeaders | SessionHeaders | Ptr header

text \<open>\<^verbatim>\<open>http.NewRequest\<close>: an empty method means \<^verbatim>\<open>GET\<close>; the header is a new map.\<close>

definition http_NewRequest :: "lib \<Rightarrow> string \<Rightarrow> string \<Rightarrow> reader option \<Rightarrow> error + request" where
  "http_NewRequest L method url body =
     (let method = (if method = [] then ''GET'' else method) in
      case NewRequest_error L method url of
        Some err \<Rightarrow> Inl err
      | None \<Rightarrow> Inr \<lparr>Method = method, URL = url, Header = [], ReqBody = body\<rparr>)"

definition shares_session :: "headers_arg \<Rightarrow> bool" where
  "shares_session headers \<longleftrightarrow> headers = SessionHeaders"

definition write_through :: "headers_arg \<Rightarrow> header \<Rightarrow> Session \<Rightarrow> Session" where
  "write_through headers h s = (if shares_session headers then s\<lparr>Headers := h\<rparr> else s)"

definition NewRequest ::
  "lib \<Rightarrow> Session \<Rightarrow> string \<Rightarrow> string \<Rightarrow> headers_arg \<Rightarrow> reader option
     \<Rightarrow> (error + request) \<times> Session" where
  "NewRequest L s method url headers body =
     (case http_NewRequest L method url body of
        Inl err \<Rightarrow> (Inl err, s)
      | Inr req \<Rightarrow>
          let h0 = (case headers of
                      NilHeaders \<Rightarrow> Header req
                    | SessionHeaders \<Rightarrow> Headers s
                    | Ptr h \<Rightarrow> h);
              h1 = (if AuthToken s \<noteq> [] then
                      AList.update ''Authorization'' [''PVEAPIToken='' @ AuthToken s] h0
                    else if AuthTicket s \<noteq> [] then
                      AList.update ''CSRFPreventionToken'' [CsrfToken s]
                        (AList.update ''Authorization'' [''PVEAuthCookie='' @ AuthTicket s] h0)
                    else h0)
          in (Inr (req\<lparr>Header := h1\<rparr>), write_through headers h1 s))"

text \<open>
  \<^verbatim>\<open>httputil.DumpResponse(resp, true)\<close> reads the body and puts a new reader over the
  same bytes in its place; if reading fails it returns no text.
\<close>

definition DumpResponse ::
  "lib \<Rightarrow> reader option http_response \<Rightarrow> string \<times> reader option http_response" where
  "DumpResponse L resp =
     (case Body resp of
        None \<Rightarrow> (DumpResponse_text L (Status resp) (StatusCode resp) [], resp)
      | Some body \<Rightarrow>
          (case ReadAll body of
             (Inr b, drained) \<Rightarrow>
               (DumpResponse_text L (Status resp) (StatusCode resp) b,
                resp\<lparr>Body := Some (bytes_NewReader b)\<rparr>)
           | (Inl err, drained) \<Rightarrow> ([], resp\<lparr>Body := Some drained\<rparr>)))"

definition log_Printf :: "string \<Rightarrow> string \<Rightarrow> globals \<Rightarrow> globals" where
  "log_Printf heading dump g = g\<lparr>log_output := log_output g @ [heading @ [CHR 0x0A] @ dump]\<rparr>"

text \<open>
  \<^verbatim>\<open>Do\<close>. The first definition is its first loop, which writes the session's headers
  into the header of the request; the result of \<open>Do\<close> is the pair that the source
  returns, and the state of the process afterwards.
\<close>

definition add_session_headers :: "Session \<Rightarrow> request \<Rightarrow> request" where
  "add_session_headers s req =
     req\<lparr>Header := fold (\<lambda>entry h. AList.update (fst entry) (snd entry) h)
                      (Headers s) (Header req)\<rparr>"

definition Do ::
  "lib \<Rightarrow> Session \<Rightarrow> request \<Rightarrow> globals
     \<Rightarrow> (reader option http_response option \<times> error option) \<times> globals" where
  "Do L s req0 g0 =
     (let req = add_session_headers s req0;
          g1 = (if Debug g0 then log_Printf ''>>>>>>>>>> REQUEST:'' (DumpRequestOut L req) g0
                else g0)
      in case httpClient s g1 req of
           Inl err \<Rightarrow> ((None, Some err), g1)
         | Inr resp0 \<Rightarrow>
             (case fst (ReadAll (Body resp0)) of
                Inl err \<Rightarrow> ((None, Some err), g1)
              | Inr respBody \<Rightarrow>
                  let resp = \<lparr>Status = Status resp0, StatusCode = StatusCode resp0,
                              Body = Some (bytes_NewReader respBody)\<rparr>;
                      (resp, g2) =
                        (if Debug g1 then
                           (snd (DumpResponse L resp),
                            log_Printf ''<<<<<<<<<< RESULT:'' (fst (DumpResponse L resp)) g1)
                         else (resp, g1))
                  in if StatusCode resp < 200 \<or> StatusCode resp > 299
                     then ((Some resp, Some (StatusError (Status resp))), g2)
                     else ((Some resp, None), g2)))"

text \<open>\<^verbatim>\<open>Request\<close>; \<^verbatim>\<open>req.Header.Set\<close> writes into the shared map as well.\<close>

definition Request ::
  "lib \<Rightarrow> Session \<Rightarrow> string \<Rightarrow> string \<Rightarrow> url_values option \<Rightarrow> headers_arg \<Rightarrow> string option
     \<Rightarrow> globals \<Rightarrow> (reader option http_response option \<times> error option) \<times> Session \<times> globals" where
  "Request L s method url params headers body g =
     (let url = ApiUrl s @ url;
          url = (case params of None \<Rightarrow> url | Some p \<Rightarrow> url @ ''?'' @ Encode L p);
          buf = (case body of None \<Rightarrow> None | Some b \<Rightarrow> Some (bytes_NewReader b))
      in case NewRequest L s method url headers buf of
           (Inl err, s1) \<Rightarrow> ((None, Some err), s1, g)
         | (Inr req, s1) \<Rightarrow>
             let h = AList.update ''Accept'' [''application/json''] (Header req);
                 s2 = write_through headers h s1;
                 (res, g') = Do L s2 (req\<lparr>Header := h\<rparr>) g
             in (res, s2, g'))"

definition Post ::
  "lib \<Rightarrow> Session \<Rightarrow> string \<Rightarrow> url_values option \<Rightarrow> headers_arg \<Rightarrow> string option
     \<Rightarrow> globals \<Rightarrow> (reader option http_response option \<times> error option) \<times> Session \<times> globals" where
  "Post L s url params headers body g =
     (let headers =
        (if headers = NilHeaders
         then Ptr [(''Content-Type'', [''application/x-www-form-urlencoded''])]
         else headers)
      in Request L s ''POST'' url params headers body g)"

definition SetAPIToken :: "Session \<Rightarrow> string \<Rightarrow> string \<Rightarrow> Session" where
  "SetAPIToken s userID token = s\<lparr>AuthToken := userID @ ''='' @ token\<rparr>"

section \<open>Login\<close>

text \<open>
  \<^verbatim>\<open>Login\<close> returns an error or \<^verbatim>\<open>nil\<close>, or it panics at a type assertion
  \<^verbatim>\<open>x.(T)\<close> whose operand does not hold a \<open>T\<close>; \<open>Panics\<close> carries the name of \<open>T\<close>.
  The result is the outcome, the session and the state of the process at that
  moment.
\<close>

datatype 'a result = Returns 'a | Panics string

definition is_nil :: "json option \<Rightarrow> bool" where
  "is_nil x \<longleftrightarrow> x = None \<or> x = Some JNull"

text \<open>Lines 215 to 225 of the source: the decoded body of the response.\<close>

definition Login_body ::
  "string \<Rightarrow> (string \<times> json) list option \<Rightarrow> Session \<Rightarrow> error option result \<times> Session" where
  "Login_body dr jbody s =
     (case jbody of
        None \<Rightarrow> (Returns (Some (InvalidLoginResponse dr)), s)
      | Some jbody \<Rightarrow>
          if is_nil (map_of jbody ''data'')
          then (Returns (Some (InvalidLoginResponse dr)), s)
          else
            (case map_of jbody ''data'' of
               Some (JObject ms) \<Rightarrow>
                 (let dat = go_map ms [] in
                  if map_of dat ''NeedTFA'' = Some (JNumber 1)
                  then (Returns (Some MissingTFA), s)
                  else
                    (case map_of dat ''ticket'' of
                       Some (JString ticket) \<Rightarrow>
                         (case map_of dat ''CSRFPreventionToken'' of
                            Some (JString token) \<Rightarrow>
                              (Returns None, s\<lparr>AuthTicket := ticket, CsrfToken := token\<rparr>)
                          | other \<Rightarrow> (Panics ''string'', s\<lparr>AuthTicket := ticket\<rparr>))
                     | other \<Rightarrow> (Panics ''string'', s)))
             | other \<Rightarrow> (Panics ''map[string]interface {}'', s)))"

definition Login ::
  "lib \<Rightarrow> Session \<Rightarrow> string \<Rightarrow> string \<Rightarrow> string \<Rightarrow> globals
     \<Rightarrow> error option result \<times> Session \<times> globals" where
  "Login L s username password otp g =
     (let reqUser = [(''username'', IString username), (''password'', IString password)];
          reqUser = (if otp \<noteq> [] then AList.update ''otp'' (IString otp) reqUser else reqUser);
          reqbody = ParamsToBody L reqUser;
          olddebug = Debug g;
          posted = Post L s ''/access/ticket'' None SessionHeaders (Some reqbody)
                     (g\<lparr>Debug := False\<rparr>);
          resp = fst (fst posted);
          err = snd (fst posted);
          s = fst (snd posted);
          g = (snd (snd posted))\<lparr>Debug := olddebug\<rparr>
      in case err of
           Some e \<Rightarrow> (Returns (Some e), s, g)
         | None \<Rightarrow>
             (case resp of
                None \<Rightarrow> (Returns (Some LoginReadingResponse), s, g)
              | Some resp \<Rightarrow>
                  (let dumped = DumpResponse L resp;
                       decoded = ResponseJSON L (snd dumped)
                   in case snd decoded of
                        Some e \<Rightarrow> (Returns (Some e), s, g)
                      | None \<Rightarrow>
                          (fst (Login_body (fst dumped) (fst decoded) s),
                           snd (Login_body (fst dumped) (fst decoded) s), g))))"

section \<open>Vocabulary of the statements\<close>

text \<open>
  A control byte is a byte below 32 or the byte 127. A plain byte is a printable
  ASCII character other than the double quote and the backslash: the bytes that
  \<^verbatim>\<open>%q\<close> copies unchanged. \<open>strings_Contains s sub\<close> is \<^verbatim>\<open>strings.Contains(s, sub)\<close>.
\<close>

definition control_byte :: "char \<Rightarrow> bool" where
  "control_byte c \<longleftrightarrow> (of_char c :: nat) < 32 \<or> (of_char c :: nat) = 127"

definition plain_byte :: "char \<Rightarrow> bool" where
  "plain_byte c \<longleftrightarrow> 0x20 \<le> (of_char c :: nat) \<and> (of_char c :: nat) \<le> 0x7E
      \<and> c \<noteq> dquote \<and> c \<noteq> backslash"

definition strings_Contains :: "string \<Rightarrow> string \<Rightarrow> bool" where
  "strings_Contains s sub \<longleftrightarrow> sublist sub s"

definition offending :: "string \<Rightarrow> bool" where
  "offending v \<longleftrightarrow> list_ex invalid_rune (runes v)"

text \<open>
  The map that the argument \<^verbatim>\<open>headers\<close> of \<^verbatim>\<open>NewRequest\<close> points to; no entries when
  the argument is \<^verbatim>\<open>nil\<close>.
\<close>

definition caller_headers :: "Session \<Rightarrow> headers_arg \<Rightarrow> header" where
  "caller_headers s headers =
     (case headers of NilHeaders \<Rightarrow> [] | SessionHeaders \<Rightarrow> Headers s | Ptr h \<Rightarrow> h)"

text \<open>
  The state of the process in which \<open>Do\<close> calls the client: the state in which \<open>Do\<close>
  was called, after the request has been logged if \<open>Debug\<close> is set.
\<close>

definition dispatch_state :: "lib \<Rightarrow> Session \<Rightarrow> request \<Rightarrow> globals \<Rightarrow> globals" where
  "dispatch_state L s req g =
     (if Debug g
      then log_Printf ''>>>>>>>>>> REQUEST:'' (DumpRequestOut L (add_session_headers s req)) g
      else g)"

text \<open>
  A client that is called in a state in which \<open>Debug\<close> has been set to false,
  whatever the state of the caller is.
\<close>

definition with_Debug_off :: "round_tripper \<Rightarrow> round_tripper" where
  "with_Debug_off c g req = c (g\<lparr>Debug := False\<rparr>) req"

text \<open>
  The examples below use a table in which no code point above U+00FF is printable;
  the keys and values of the examples are ASCII, so the table is never consulted.
\<close>

definition example_table :: "rune \<Rightarrow> bool" where
  "example_table r \<longleftrightarrow> False"

section \<open>Instances used in the examples\<close>

text \<open>
  The examples evaluate the definitions on concrete inputs, so they need an instance
  of the library. \<open>example_documents\<close> gives the JSON value of the few documents
  the examples use and rejects every other text; \<open>ascii_EqualFold\<close> compares two
  ASCII strings without regard to case; every method and URL is accepted;
  \<open>example_Encode\<close> and the two dumps are stand-ins, on whose output no example
  depends.
\<close>

definition to_upper :: "char \<Rightarrow> char" where
  "to_upper c =
     (if 97 \<le> (of_char c :: nat) \<and> (of_char c :: nat) \<le> 122
      then char_of ((of_char c :: nat) - 32) else c)"

definition ascii_EqualFold :: "string \<Rightarrow> string \<Rightarrow> bool" where
  "ascii_EqualFold a b \<longleftrightarrow> map to_upper a = map to_upper b"

definition example_documents :: "string \<Rightarrow> string + json" where
  \<open>example_documents b =
     (if b = ''{"data":{"result":{"x":1}}}''
        then Inr (JObject [(''data'', JObject [(''result'', JObject [(''x'', JNumber 1)])])])
      else if b = ''{"data":{}}''
        then Inr (JObject [(''data'', JObject [])])
      else if b = ''{"data":{"ticket":"PVE:root@pam:66A0"}}''
        then Inr (JObject [(''data'', JObject [(''ticket'', JString ''PVE:root@pam:66A0'')])])
      else if b = ''{"data":{"ticket":"PVE:root@pam:66A0","CSRFPreventionToken":"66A0:x9"}}''
        then Inr (JObject [(''data'', JObject [(''ticket'', JString ''PVE:root@pam:66A0''),
                     (''CSRFPreventionToken'', JString ''66A0:x9'')])])
      else Inl ''invalid character'')\<close>

definition example_Encode :: "url_values \<Rightarrow> string" where
  "example_Encode vals = concat (map (\<lambda>entry. fst entry @ ''='' @ concat (snd entry) @ ''&'') vals)"

definition example_lib :: lib where
  "example_lib =
     \<lparr>json_parse = example_documents,
      EqualFold = ascii_EqualFold,
      NewRequest_error = (\<lambda>method url. None),
      Encode = example_Encode,
      DumpRequestOut = (\<lambda>req. Method req @ '' '' @ URL req),
      DumpResponse_text = (\<lambda>status code body. status @ [CHR 0x0A] @ body)\<rparr>"

text \<open>A client that answers every request with the given status and body.\<close>

definition respond :: "string \<Rightarrow> int \<Rightarrow> string \<Rightarrow> round_tripper" where
  "respond status code body g req =
     Inr \<lparr>Status = status, StatusCode = code, Body = bytes_NewReader body\<rparr>"

text \<open>
  A client that answers every request with the values it received under the given
  header name, as the body.
\<close>

definition echo_header :: "string \<Rightarrow> round_tripper" where
  "echo_header name g req =
     Inr \<lparr>Status = ''200 OK'', StatusCode = 200,
          Body = bytes_NewReader
            (case map_of (Header req) name of None \<Rightarrow> [] | Some vals \<Rightarrow> concat vals)\<rparr>"


text \<open>A session as \<open>NewSession\<close> leaves it, around a given client.\<close>

definition example_session :: "round_tripper \<Rightarrow> Session" where
  "example_session c =
     \<lparr>httpClient = c, ApiUrl = ''https://pve.example:8006/api2/json'', AuthTicket = [],
      CsrfToken = [], AuthToken = [], Headers = []\<rparr>"

definition example_globals :: "bool \<Rightarrow> globals" where
  "example_globals d = \<lparr>Debug = d, log_output = []\<rparr>"

text \<open>
  A destination of the typed decoder: the Go type \<^verbatim>\<open>struct{ X float64 }\<close>, and how
  \<^verbatim>\<open>encoding/json\<close> stores a value in it: an object member whose key is \<open>X\<close> up to
  case sets the field when its value is a number, is skipped when it is \<^verbatim>\<open>null\<close>, and
  is a type error otherwise. A \<^verbatim>\<open>float64\<close> is the real number it denotes.
\<close>

record dest =
  X :: real

definition store_dest_member ::
  "lib \<Rightarrow> string \<times> json \<Rightarrow> dest \<times> error option \<Rightarrow> dest \<times> error option" where
  "store_dest_member L member st =
     (if field_match L ''X'' (fst member) then
        (case snd member of
           JNumber n \<Rightarrow> ((fst st)\<lparr>X := n\<rparr>, snd st)
         | JNull \<Rightarrow> st
         | j \<Rightarrow> (fst st, first_error (snd st) (UnmarshalTypeError (json_kind j))))
      else st)"

definition store_dest :: "lib \<Rightarrow> json \<Rightarrow> dest \<Rightarrow> dest \<times> error option" where
  "store_dest L j v =
     (case j of
        JObject ms \<Rightarrow> fold (store_dest_member L) ms (v, None)
      | JNull \<Rightarrow> (v, None)
      | other \<Rightarrow> (v, Some (UnmarshalTypeError (json_kind other))))"

section \<open>Properties of the header validator\<close>

lemma validateHeader_None_iff:
  "validateHeader h = None \<longleftrightarrow>
     (\<forall>(k, vs) \<in> set h. \<forall>v \<in> set vs. \<forall>r \<in> set (runes v). \<not> invalid_rune r)"
  by (induction h rule: validateHeader.induct) (auto simp: list_ex_iff)

lemma validateHeader_Some:
  "validateHeader h = Some e \<Longrightarrow>
     \<exists>k vs v r. (k, vs) \<in> set h \<and> v \<in> set vs \<and> r \<in> set (runes v) \<and> invalid_rune r
        \<and> e = InvalidCharacters k"
  by (induction h rule: validateHeader.induct) (auto simp: list_ex_iff split: if_splits)

text \<open>A code point below 128 is a byte of the string: multi-byte sequences decode to
  code points from 128 on, and so does an invalid byte.\<close>

lemma DecodeRune_ascii:
  "fst (DecodeRune (b # bs)) < 0x80 \<Longrightarrow> fst (DecodeRune (b # bs)) = b"
proof (cases "b < 0x80")
  case True
  then show ?thesis by (simp add: DecodeRune_def)
next
  case False
  assume a: "fst (DecodeRune (b # bs)) < 0x80"
  have "0x80 \<le> fst (DecodeRune (b # bs))"
  proof (cases "seq_size b = 1")
    case True
    with False show ?thesis by (simp add: DecodeRune_def RuneError_def)
  next
    case n1: False
    show ?thesis
    proof (cases "seq_size b = 2")
      case True
      then have "0xC2 \<le> b" by (simp add: seq_size_def split: if_splits)
      then have "128 \<le> (b - 192) * 64" by arith
      then have "\<And>x. 128 \<le> (b - 192) * 64 + x" by arith
      with False True show ?thesis
        by (simp add: DecodeRune_def RuneError_def Let_def)
    next
      case n2: False
      show ?thesis
      proof (cases "seq_size b = 3")
        case True
        then have "0xE0 \<le> b" by (simp add: seq_size_def split: if_splits)
        then have "b = 0xE0 \<or> 4096 \<le> (b - 224) * 4096" by arith
        moreover have "b = 0xE0 \<Longrightarrow> accept_lo b = 0xA0" by (simp add: accept_lo_def)
        moreover have "\<And>x::nat. 0xA0 \<le> x \<Longrightarrow> 128 \<le> (x - 128) * 64" by arith
        ultimately show ?thesis using False True
          by (cases "b = 0xE0") (auto simp: DecodeRune_def RuneError_def Let_def not_less
              intro: trans_le_add1 trans_le_add2)
      next
        case n3: False
        with n1 n2 have s4: "seq_size b = 4" by (simp add: seq_size_def split: if_splits)
        then have "0xF0 \<le> b" by (simp add: seq_size_def split: if_splits)
        then have "b = 0xF0 \<or> 262144 \<le> (b - 240) * 262144" by arith
        moreover have "b = 0xF0 \<Longrightarrow> accept_lo b = 0x90" by (simp add: accept_lo_def)
        moreover have "\<And>x::nat. 0x90 \<le> x \<Longrightarrow> 128 \<le> (x - 128) * 4096" by arith
        ultimately show ?thesis using False s4
          by (cases "b = 0xF0") (auto simp: DecodeRune_def RuneError_def Let_def not_less
              intro: trans_le_add1 trans_le_add2)
      qed
    qed
  qed
  with a show ?thesis by simp
qed

lemma range_runes_ascii:
  "r \<in> set (range_runes k bs) \<Longrightarrow> r < 0x80 \<Longrightarrow> r \<in> set bs"
proof (induction bs arbitrary: k)
  case Nil
  then show ?case by simp
next
  case (Cons b bs)
  show ?case
  proof (cases "0 < k")
    case True
    with Cons show ?thesis by auto
  next
    case False
    with Cons.prems have "r = fst (DecodeRune (b # bs))
        \<or> r \<in> set (range_runes (snd (DecodeRune (b # bs)) - 1) bs)"
      by simp
    then show ?thesis
    proof
      assume "r = fst (DecodeRune (b # bs))"
      with Cons.prems(2) DecodeRune_ascii[of b bs] show ?thesis by simp
    next
      assume "r \<in> set (range_runes (snd (DecodeRune (b # bs)) - 1) bs)"
      with Cons.IH Cons.prems(2) show ?thesis by simp
    qed
  qed
qed

lemma offending_control_byte:
  assumes "offending v"
  shows "\<exists>c \<in> set v. control_byte c"
proof -
  from assms obtain r where r: "r \<in> set (runes v)" "invalid_rune r"
    by (auto simp: offending_def list_ex_iff)
  then have "r < 0x80" by (auto simp: invalid_rune_def)
  with r(1) have "r \<in> set (map of_char v)"
    unfolding runes_def by (rule range_runes_ascii)
  then obtain c where "c \<in> set v" "r = of_char c" by auto
  with r(2) show ?thesis by (auto simp: control_byte_def invalid_rune_def)
qed

subsection \<open>The quoted key has no control byte\<close>

lemma hexdigit_plain: "\<not> control_byte (hexdigit n)"
proof -
  have "hexdigit n \<in> set lowerhex"
    unfolding hexdigit_def by (rule nth_mem) (simp add: lowerhex_def)
  moreover have "\<forall>c \<in> set lowerhex. \<not> control_byte c"
    by (simp add: lowerhex_def control_byte_def)
  ultimately show ?thesis by blast
qed

lemma high_byte_plain: "128 \<le> n \<Longrightarrow> n < 256 \<Longrightarrow> \<not> control_byte (char_of (n::nat))"
  by (simp add: control_byte_def)

lemma AppendRune_high:
  assumes "0x7F < r"
  shows "\<forall>c \<in> set (AppendRune r). \<not> control_byte c"
proof -
  have m: "\<And>x::nat. \<not> control_byte (char_of (0x80 + x mod 64))"
    by (rule high_byte_plain) (simp, simp add: less_le_trans[OF mod_less_divisor])
  have a: "r \<le> 0x7FF \<Longrightarrow> \<not> control_byte (char_of (0xC0 + r div 64))"
    by (rule high_byte_plain) (simp, arith)
  have b: "r \<le> 0xFFFF \<Longrightarrow> \<not> control_byte (char_of (0xE0 + r div 4096))"
    by (rule high_byte_plain) (simp, arith)
  have c: "r \<le> 0x10FFFF \<Longrightarrow> \<not> control_byte (char_of (0xF0 + r div 262144))"
    by (rule high_byte_plain) (simp, arith)
  have d: "\<not> control_byte (char_of (0xEF::nat))" "\<not> control_byte (char_of (0xBF::nat))"
    "\<not> control_byte (char_of (0xBD::nat))"
    by (simp_all add: control_byte_def)
  from assms show ?thesis
    unfolding AppendRune_def using m a b c d by (simp add: not_le not_less)
qed

lemma AppendRune_print:
  assumes "IsPrint T r"
  shows "\<forall>c \<in> set (AppendRune r). \<not> control_byte c"
proof (cases "r \<le> 0x7F")
  case True
  with assms have "0x20 \<le> r \<and> r \<le> 0x7E"
    by (simp add: IsPrint_def split: if_splits)
  with True show ?thesis
    by (simp add: AppendRune_def control_byte_def)
next
  case False
  then have "0x7F < r" by simp
  then show ?thesis by (rule AppendRune_high)
qed

lemma appendEscapedRune_plain: "\<forall>c \<in> set (appendEscapedRune T r). \<not> control_byte c"
proof -
  have bs: "\<not> control_byte backslash" by (simp add: backslash_def control_byte_def)
  have q: "r = of_char dquote \<or> r = of_char backslash \<Longrightarrow> \<not> control_byte (char_of r)"
    by (auto simp: dquote_def backslash_def control_byte_def)
  have l: "\<not> control_byte CHR ''a''" "\<not> control_byte CHR ''b''" "\<not> control_byte CHR ''f''"
    "\<not> control_byte CHR ''n''" "\<not> control_byte CHR ''r''" "\<not> control_byte CHR ''t''"
    "\<not> control_byte CHR ''v''" "\<not> control_byte CHR ''x''" "\<not> control_byte CHR ''u''"
    "\<not> control_byte CHR ''U''" "\<not> control_byte CHR ''d''"
    by (simp_all add: control_byte_def)
  show ?thesis
    unfolding appendEscapedRune_def
    using bs q l hexdigit_plain AppendRune_print[of T r] by (simp del: of_char_Char)
qed

lemma quote_loop_plain: "\<forall>c \<in> set (quote_loop T k bs). \<not> control_byte c"
proof (induction bs arbitrary: k)
  case Nil
  show ?case by simp
next
  case (Cons b bs)
  have bs: "\<not> control_byte backslash" "\<not> control_byte CHR ''x''"
    by (simp_all add: backslash_def control_byte_def)
  show ?case
    using Cons.IH bs hexdigit_plain appendEscapedRune_plain
    by (auto simp: Let_def split_beta)
qed

lemma Quote_plain: "\<forall>c \<in> set (Quote T s). \<not> control_byte c"
  using quote_loop_plain by (simp add: Quote_def dquote_def control_byte_def)

lemma Error_InvalidCharacters_plain:
  "\<forall>c \<in> set (Error T (InvalidCharacters key)). \<not> control_byte c"
  using Quote_plain[of T key] by (simp add: control_byte_def)

lemma Error_InvalidHeader_plain:
  "\<forall>c \<in> set (Error T (InvalidHeader (InvalidCharacters key))). \<not> control_byte c"
  using Quote_plain[of T key] by (simp add: control_byte_def)

lemma Contains_byte:
  "strings_Contains s sub \<Longrightarrow> c \<in> set sub \<Longrightarrow> c \<in> set s"
  by (auto simp: strings_Contains_def sublist_def)

lemma offending_not_in_message:
  assumes "offending v"
  shows "\<not> strings_Contains (Error T (InvalidCharacters key)) v"
    and "\<not> strings_Contains (Error T (InvalidHeader (InvalidCharacters key))) v"
proof -
  from assms obtain c where c: "c \<in> set v" "control_byte c"
    using offending_control_byte by blast
  show "\<not> strings_Contains (Error T (InvalidCharacters key)) v"
    using c Contains_byte Error_InvalidCharacters_plain by blast
  show "\<not> strings_Contains (Error T (InvalidHeader (InvalidCharacters key))) v"
    using c Contains_byte Error_InvalidHeader_plain by blast
qed

subsection \<open>A key of plain bytes is quoted as itself\<close>

lemma quote_loop_plain_key:
  "\<forall>c \<in> set s. plain_byte c \<Longrightarrow> quote_loop T 0 (map of_char s) = s"
proof (induction s)
  case Nil
  show ?case by simp
next
  case (Cons c s)
  then have c: "plain_byte c" and s: "quote_loop T 0 (map of_char s) = s" by simp_all
  from c have lt: "\<not> 0x80 \<le> (of_char c :: nat)" by (simp add: plain_byte_def)
  from c have ne: "(of_char c :: nat) \<noteq> RuneError" by (simp add: plain_byte_def RuneError_def)
  from c have nq: "(of_char c :: nat) \<noteq> of_char dquote" "(of_char c :: nat) \<noteq> of_char backslash"
    by (simp_all add: plain_byte_def)
  from c have pr: "IsPrint T (of_char c)" by (simp add: plain_byte_def IsPrint_def)
  from c have ap: "AppendRune (of_char c) = [c]" by (simp add: plain_byte_def AppendRune_def)
  have "appendEscapedRune T (of_char c) = [c]"
    unfolding appendEscapedRune_def using nq pr ap by simp
  with lt ne s show ?case by simp
qed

lemma Quote_plain_key:
  "\<forall>c \<in> set s. plain_byte c \<Longrightarrow> Quote T s = [dquote] @ s @ [dquote]"
  by (simp add: Quote_def quote_loop_plain_key)

lemma Contains_Quote:
  "strings_Contains (Error T (InvalidCharacters key)) (Quote T key)"
proof -
  have "Error T (InvalidCharacters key)
      = ''value for key '' @ Quote T key @ '' contains invalid characters''"
    by simp
  then show ?thesis unfolding strings_Contains_def sublist_def by blast
qed

lemma Contains_Quote_wrapped:
  "strings_Contains (Error T (InvalidHeader (InvalidCharacters key))) (Quote T key)"
proof -
  have "Error T (InvalidHeader (InvalidCharacters key))
      = (''invalid header: '' @ ''value for key '') @ Quote T key @ '' contains invalid characters''"
    by simp
  then show ?thesis unfolding strings_Contains_def sublist_def by blast
qed

lemma Contains_plain_key:
  assumes "\<forall>c \<in> set key. plain_byte c"
  shows "strings_Contains (Error T (InvalidCharacters key)) key"
proof -
  have "Error T (InvalidCharacters key)
      = (''value for key '' @ [dquote]) @ key @ ([dquote] @ '' contains invalid characters'')"
    using Quote_plain_key[OF assms, of T] by simp
  then show ?thesis unfolding strings_Contains_def sublist_def by blast
qed

lemma validateHeader_fails_iff:
  "validateHeader h \<noteq> None \<longleftrightarrow>
      (\<exists>(k, vs) \<in> set h. \<exists>v \<in> set vs. \<exists>r \<in> set (runes v). r < 32 \<or> r = 127)"
  by (induction h rule: validateHeader.induct) (auto simp: list_ex_iff invalid_rune_def)

lemma validateHeader_rename:
  "(validateHeader (map (\<lambda>(k, vs). (f k, vs)) h) = None) = (validateHeader h = None)"
  by (induction h rule: validateHeader.induct) auto

text \<open>Facts with which the simplifier evaluates \<open>Quote\<close> on a given string.\<close>

lemmas quote_eval = Quote_def appendEscapedRune_def dquote_def backslash_def char_of_eq_iff
  IsPrint_def AppendRune_def RuneError_def

subsection \<open>Claim C2\<close>

text \<open>
  C2, as amended. Validation fails if and only if some value contains a code point
  in [0,31] or equal to 127. On failure the error is \<open>InvalidCharacters k\<close> for the key
  \<open>k\<close> of an entry with such a value; its message contains \<open>k\<close> in the quoted form
  of \<^verbatim>\<open>%q\<close> (and so does the message of the error as \<^verbatim>\<open>secureTransport.RoundTrip\<close>
  wraps it), and contains \<open>k\<close> itself when \<open>k\<close> consists of plain bytes (printable
  ASCII other than the double quote and the backslash). Neither message contains
  any value of the header that has such a code point.
\<close>

theorem validateHeader_failure:
  "(validateHeader h \<noteq> None \<longleftrightarrow>
      (\<exists>(k, vs) \<in> set h. \<exists>v \<in> set vs. \<exists>r \<in> set (runes v). r < 32 \<or> r = 127))
   \<and> (\<forall>e. validateHeader h = Some e \<longrightarrow>
        (\<exists>k vs. (k, vs) \<in> set h \<and> (\<exists>v \<in> set vs. offending v) \<and> e = InvalidCharacters k
           \<and> strings_Contains (Error T e) (Quote T k)
           \<and> strings_Contains (Error T (InvalidHeader e)) (Quote T k)
           \<and> ((\<forall>c \<in> set k. plain_byte c) \<longrightarrow> strings_Contains (Error T e) k))
        \<and> (\<forall>(k, vs) \<in> set h. \<forall>v \<in> set vs. offending v \<longrightarrow>
              \<not> strings_Contains (Error T e) v
              \<and> \<not> strings_Contains (Error T (InvalidHeader e)) v))"
proof (intro conjI allI impI)
  show "validateHeader h \<noteq> None \<longleftrightarrow>
      (\<exists>(k, vs) \<in> set h. \<exists>v \<in> set vs. \<exists>r \<in> set (runes v). r < 32 \<or> r = 127)"
    by (rule validateHeader_fails_iff)
next
  fix e assume e: "validateHeader h = Some e"
  then obtain k vs v r where kv: "(k, vs) \<in> set h" "v \<in> set vs" "r \<in> set (runes v)"
      "invalid_rune r" "e = InvalidCharacters k"
    using validateHeader_Some by blast
  then have "offending v" by (auto simp: offending_def list_ex_iff)
  with kv Contains_Quote[of T k] Contains_Quote_wrapped[of T k] Contains_plain_key[of k T]
  show "\<exists>k vs. (k, vs) \<in> set h \<and> (\<exists>v \<in> set vs. offending v) \<and> e = InvalidCharacters k
           \<and> strings_Contains (Error T e) (Quote T k)
           \<and> strings_Contains (Error T (InvalidHeader e)) (Quote T k)
           \<and> ((\<forall>c \<in> set k. plain_byte c) \<longrightarrow> strings_Contains (Error T e) k)"
    by blast
  from kv(5) offending_not_in_message[of _ T k]
  show "\<forall>(k, vs) \<in> set h. \<forall>v \<in> set vs. offending v \<longrightarrow>
              \<not> strings_Contains (Error T e) v
              \<and> \<not> strings_Contains (Error T (InvalidHeader e)) v"
    by blast
qed

theorem validateHeader_failure_witness:
  "validateHeader [(''Authorization'', [''PVEAPIToken=root@pam!ci=12ab'' @ [CHR 0x0A]])]
      = Some (InvalidCharacters ''Authorization'')
   \<and> strings_Contains (Error example_table (InvalidCharacters ''Authorization'')) ''Authorization''
   \<and> \<not> strings_Contains (Error example_table (InvalidCharacters ''Authorization''))
          (''PVEAPIToken=root@pam!ci=12ab'' @ [CHR 0x0A])
   \<and> \<not> strings_Contains (Error example_table (InvalidHeader (InvalidCharacters ''Authorization'')))
          (''PVEAPIToken=root@pam!ci=12ab'' @ [CHR 0x0A])"
proof -
  let ?v = "''PVEAPIToken=root@pam!ci=12ab'' @ [CHR 0x0A]"
  let ?h = "[(''Authorization'', [?v])]"
  have a: "validateHeader ?h = Some (InvalidCharacters ''Authorization'')" by code_simp
  have b: "\<forall>c \<in> set ''Authorization''. plain_byte c" by code_simp
  have c: "offending ?v" by code_simp
  from validateHeader_failure[of ?h example_table] a b c show ?thesis by auto
qed

text \<open>
  C2 as stated fails for a key that \<^verbatim>\<open>%q\<close> does not copy unchanged: for the key
  \<^verbatim>\<open>X"Y\<close> the message reads \<^verbatim>\<open>value for key "X\"Y" contains invalid characters\<close>, which
  does not contain the key.
\<close>

theorem validateHeader_key_counterexample:
  "validateHeader [(''X'' @ [CHR 0x22] @ ''Y'', [''secret'' @ [CHR 0x01]])]
      = Some (InvalidCharacters (''X'' @ [CHR 0x22] @ ''Y''))
   \<and> \<not> strings_Contains (Error example_table (InvalidCharacters (''X'' @ [CHR 0x22] @ ''Y'')))
          (''X'' @ [CHR 0x22] @ ''Y'')"
proof -
  have a: "validateHeader [(''X'' @ [CHR 0x22] @ ''Y'', [''secret'' @ [CHR 0x01]])]
      = Some (InvalidCharacters (''X'' @ [CHR 0x22] @ ''Y''))"
    by code_simp
  have b: "Error example_table (InvalidCharacters (''X'' @ [CHR 0x22] @ ''Y''))
     = ''value for key '' @ [CHR 0x22] @ ''X'' @ [CHR 0x5C, CHR 0x22] @ ''Y'' @ [CHR 0x22]
         @ '' contains invalid characters''"
    by (simp add: quote_eval)
  have c: "\<not> sublist (''X'' @ [CHR 0x22] @ ''Y'')
     (''value for key '' @ [CHR 0x22] @ ''X'' @ [CHR 0x5C, CHR 0x22] @ ''Y'' @ [CHR 0x22]
         @ '' contains invalid characters'')"
    by code_simp
  show ?thesis unfolding strings_Contains_def b by (rule conjI[OF a c])
qed

subsection \<open>Claim C10\<close>

text \<open>
  C10. Header validation inspects only the values: if every value consists of code
  points outside [0,31] and different from 127, validation succeeds, whatever the
  keys are; and replacing the keys by any others does not change whether
  validation succeeds.
\<close>

theorem validateHeader_values_only:
  "((\<forall>(k, vs) \<in> set h. \<forall>v \<in> set vs. \<forall>r \<in> set (runes v). \<not> (r < 32 \<or> r = 127))
      \<longrightarrow> validateHeader h = None)
   \<and> ((validateHeader (map (\<lambda>(k, vs). (f k, vs)) h) = None) = (validateHeader h = None))"
proof
  show "(\<forall>(k, vs) \<in> set h. \<forall>v \<in> set vs. \<forall>r \<in> set (runes v). \<not> (r < 32 \<or> r = 127))
      \<longrightarrow> validateHeader h = None"
    using validateHeader_fails_iff[of h] by blast
  show "(validateHeader (map (\<lambda>(k, vs). (f k, vs)) h) = None) = (validateHeader h = None)"
    by (rule validateHeader_rename)
qed

theorem validateHeader_values_only_witness:
  "validateHeader [([CHR 0x01, CHR 0x7F], [''application/json''])] = None"
proof -
  have "\<forall>(k, vs) \<in> set [([CHR 0x01, CHR 0x7F], [''application/json''])].
      \<forall>v \<in> set vs. \<forall>r \<in> set (runes v). \<not> (r < 32 \<or> r = 127)"
    by code_simp
  with validateHeader_values_only[of "[([CHR 0x01, CHR 0x7F], [''application/json''])]"]
  show ?thesis by blast
qed
section \<open>Properties of the parameter encoder\<close>

lemma param_step_map_of:
  "map_of (param_step allowedEmpty allowEmpty (k, x) vals) =
     (if allowEmpty \<or> spec_encode_value x \<noteq> [] \<or> k \<in> set allowedEmpty
      then (map_of vals)(k \<mapsto> [spec_encode_value x]) else map_of vals)"
  by (cases x) (auto simp: param_step_def Values_Set_def inArray_def spec_encode_value_def
      update_conv' Let_def split: bool.splits)

lemma param_step_keys:
  "distinct (map fst vals) \<Longrightarrow> distinct (map fst (param_step allowedEmpty allowEmpty e vals))"
  by (simp add: param_step_def Values_Set_def Let_def distinct_update)

lemma param_fold_map_of:
  "distinct (map fst ps) \<Longrightarrow>
   map_of (fold (param_step allowedEmpty allowEmpty) ps acc) k =
     (case map_of ps k of
        None \<Rightarrow> map_of acc k
      | Some x \<Rightarrow>
          if allowEmpty \<or> spec_encode_value x \<noteq> [] \<or> k \<in> set allowedEmpty
          then Some [spec_encode_value x] else map_of acc k)"
proof (induction ps arbitrary: acc)
  case Nil
  show ?case by simp
next
  case (Cons p ps)
  obtain k' x' where p: "p = (k', x')" by (cases p)
  from Cons.prems p have d: "distinct (map fst ps)" and nk: "k' \<notin> fst ` set ps" by auto
  from nk have none: "map_of ps k' = None" by (simp add: map_of_eq_None_iff)
  let ?acc = "param_step allowedEmpty allowEmpty (k', x') acc"
  have ih: "map_of (fold (param_step allowedEmpty allowEmpty) ps ?acc) k =
     (case map_of ps k of
        None \<Rightarrow> map_of ?acc k
      | Some x \<Rightarrow>
          if allowEmpty \<or> spec_encode_value x \<noteq> [] \<or> k \<in> set allowedEmpty
          then Some [spec_encode_value x] else map_of ?acc k)"
    by (rule Cons.IH[OF d])
  have st: "map_of ?acc k =
     (if k = k' \<and> (allowEmpty \<or> spec_encode_value x' \<noteq> [] \<or> k' \<in> set allowedEmpty)
      then Some [spec_encode_value x'] else map_of acc k)"
    by (auto simp: param_step_map_of)
  have fo: "fold (param_step allowedEmpty allowEmpty) (p # ps) acc
      = fold (param_step allowedEmpty allowEmpty) ps ?acc"
    by (simp add: p)
  show ?case
  proof (cases "k = k'")
    case True
    with none have "map_of ps k = None" by simp
    with True show ?thesis unfolding fo ih st by (simp add: p)
  next
    case False
    then show ?thesis unfolding fo ih st by (simp add: p split: option.splits)
  qed
qed

lemma param_fold_keys:
  "distinct (map fst acc) \<Longrightarrow>
   distinct (map fst (fold (param_step allowedEmpty allowEmpty) ps acc))"
  by (induction ps arbitrary: acc) (simp_all add: param_step_keys)

subsection \<open>Claim C6\<close>

text \<open>
  C6. For every parameter map (a list of entries with distinct keys, in any order),
  the map that \<^verbatim>\<open>ParamsToValuesWithAllEmpty\<close> builds is the map of the reference
  definition \<open>spec_encoder\<close>: a boolean is encoded as \<open>1\<close> or \<open>0\<close>, any other value
  as \<^verbatim>\<open>%v\<close> prints it; in the default mode a key whose encoded value is empty is
  absent unless it is in the allow-list; in allow-all-empty mode every key is
  kept. The result is again a map: its keys are distinct.
\<close>

theorem ParamsToValuesWithAllEmpty_refines:
  "distinct (map fst params) \<Longrightarrow>
     map_of (ParamsToValuesWithAllEmpty params allowedEmpty allowEmpty)
       = spec_encoder (map_of params) allowedEmpty allowEmpty
     \<and> distinct (map fst (ParamsToValuesWithAllEmpty params allowedEmpty allowEmpty))"
  by (auto simp: ParamsToValuesWithAllEmpty_def param_fold_map_of param_fold_keys
      spec_encoder_def fun_eq_iff split: option.splits)

theorem ParamsToValuesWithAllEmpty_refines_witness:
  "map_of (ParamsToValuesWithAllEmpty
       [(''force'', IBool True), (''comment'', IString []), (''vmid'', IInt 100),
        (''delete'', IString []), (''purge'', IBool False)] [''delete''] False)
     = spec_encoder (map_of
       [(''force'', IBool True), (''comment'', IString []), (''vmid'', IInt 100),
        (''delete'', IString []), (''purge'', IBool False)]) [''delete''] False
   \<and> ParamsToValuesWithAllEmpty
       [(''force'', IBool True), (''comment'', IString []), (''vmid'', IInt 100),
        (''delete'', IString []), (''purge'', IBool False)] [''delete''] False
     = [(''force'', [''1'']), (''vmid'', [''100'']), (''delete'', [[]]), (''purge'', [''0''])]"
proof -
  have d: "distinct (map fst [(''force'', IBool True), (''comment'', IString []),
      (''vmid'', IInt 100), (''delete'', IString []), (''purge'', IBool False)])"
    by simp
  have e: "ParamsToValuesWithAllEmpty
       [(''force'', IBool True), (''comment'', IString []), (''vmid'', IInt 100),
        (''delete'', IString []), (''purge'', IBool False)] [''delete''] False
     = [(''force'', [''1'']), (''vmid'', [''100'']), (''delete'', [[]]), (''purge'', [''0''])]"
    by code_simp
  from ParamsToValuesWithAllEmpty_refines[OF d, of "[''delete'']" False] e
  show ?thesis by blast
qed

section \<open>Properties of request construction\<close>

lemma NewRequest_Header:
  "fst (NewRequest L s method url headers body) = Inr req \<Longrightarrow>
     Header req =
       (if AuthToken s \<noteq> [] then
          AList.update ''Authorization'' [''PVEAPIToken='' @ AuthToken s] (caller_headers s headers)
        else if AuthTicket s \<noteq> [] then
          AList.update ''CSRFPreventionToken'' [CsrfToken s]
            (AList.update ''Authorization'' [''PVEAuthCookie='' @ AuthTicket s]
               (caller_headers s headers))
        else caller_headers s headers)"
  by (cases headers)
    (auto simp: NewRequest_def http_NewRequest_def caller_headers_def Let_def
      split: option.splits sum.splits if_splits)

subsection \<open>Claim C1\<close>

text \<open>
  C1, as amended. A request built by \<^verbatim>\<open>NewRequest\<close> carries the headers the caller
  passed in, changed as follows. If the static token is set (whether or not a ticket
  is set too), \<open>Authorization\<close> is the single value \<open>PVEAPIToken=\<close> followed by the
  token and nothing else is changed: no \<open>CSRFPreventionToken\<close> header is added. If
  only the ticket is set, \<open>Authorization\<close> is \<open>PVEAuthCookie=\<close> followed by the
  ticket and \<open>CSRFPreventionToken\<close> is the session's CSRF token. If neither is set,
  the headers are exactly the caller's. When the caller passes no headers
  (\<^verbatim>\<open>nil\<close>), these are all the headers of the request.
\<close>

theorem NewRequest_auth_headers:
  "fst (NewRequest L s method url headers body) = Inr req \<Longrightarrow>
     (AuthToken s \<noteq> [] \<longrightarrow>
        map_of (Header req) = (map_of (caller_headers s headers))
          (''Authorization'' \<mapsto> [''PVEAPIToken='' @ AuthToken s]))
   \<and> (AuthToken s = [] \<and> AuthTicket s \<noteq> [] \<longrightarrow>
        map_of (Header req) = (map_of (caller_headers s headers))
          (''Authorization'' \<mapsto> [''PVEAuthCookie='' @ AuthTicket s],
           ''CSRFPreventionToken'' \<mapsto> [CsrfToken s]))
   \<and> (AuthToken s = [] \<and> AuthTicket s = [] \<longrightarrow> Header req = caller_headers s headers)
   \<and> (headers = NilHeaders \<and> AuthToken s \<noteq> [] \<longrightarrow>
        Header req = [(''Authorization'', [''PVEAPIToken='' @ AuthToken s])])
   \<and> (headers = NilHeaders \<and> AuthToken s = [] \<and> AuthTicket s \<noteq> [] \<longrightarrow>
        Header req = [(''Authorization'', [''PVEAuthCookie='' @ AuthTicket s]),
                      (''CSRFPreventionToken'', [CsrfToken s])])
   \<and> (headers = NilHeaders \<and> AuthToken s = [] \<and> AuthTicket s = [] \<longrightarrow> Header req = [])"
proof -
  assume a: "fst (NewRequest L s method url headers body) = Inr req"
  note h = NewRequest_Header[OF a]
  show ?thesis
    unfolding h by (simp add: update_conv' caller_headers_def)
qed

theorem NewRequest_auth_headers_witness:
  "fst (NewRequest example_lib
      ((example_session (respond ''200 OK'' 200 []))
         \<lparr>AuthToken := ''root@pam!ci=12ab'', AuthTicket := ''PVE:root@pam:66A0'',
          CsrfToken := ''66A0:x9''\<rparr>)
      ''GET'' ''/version'' NilHeaders None)
    = Inr \<lparr>Method = ''GET'', URL = ''/version'',
           Header = [(''Authorization'', [''PVEAPIToken=root@pam!ci=12ab''])], ReqBody = None\<rparr>"
proof -
  let ?s = "(example_session (respond ''200 OK'' 200 []))
         \<lparr>AuthToken := ''root@pam!ci=12ab'', AuthTicket := ''PVE:root@pam:66A0'',
          CsrfToken := ''66A0:x9''\<rparr>"
  obtain req where r: "fst (NewRequest example_lib ?s ''GET'' ''/version'' NilHeaders None) = Inr req"
    and m: "Method req = ''GET''" "URL req = ''/version''" "ReqBody req = None"
    by (simp add: NewRequest_def http_NewRequest_def example_lib_def example_session_def Let_def)
  from NewRequest_auth_headers[OF r]
  have "Header req = [(''Authorization'', [''PVEAPIToken=root@pam!ci=12ab''])]"
    by (simp add: example_session_def)
  with m r show ?thesis by (cases req) simp
qed

text \<open>
  C1 as stated fails when the caller passes headers that hold a
  \<open>CSRFPreventionToken\<close> entry: with both token and ticket set, the request carries
  the token's \<open>Authorization\<close> header and still the caller's CSRF header.
\<close>

theorem NewRequest_keeps_caller_CSRF_counterexample:
  "fst (NewRequest example_lib
      ((example_session (respond ''200 OK'' 200 []))
         \<lparr>AuthToken := ''root@pam!ci=12ab'', AuthTicket := ''PVE:root@pam:66A0'',
          CsrfToken := ''66A0:x9''\<rparr>)
      ''GET'' ''/version'' (Ptr [(''CSRFPreventionToken'', [''66A0:x9''])]) None)
    = Inr \<lparr>Method = ''GET'', URL = ''/version'',
           Header = [(''CSRFPreventionToken'', [''66A0:x9'']),
                     (''Authorization'', [''PVEAPIToken=root@pam!ci=12ab''])],
           ReqBody = None\<rparr>"
  by (simp add: NewRequest_def http_NewRequest_def example_lib_def example_session_def Let_def)

section \<open>Properties of \<open>Do\<close>\<close>

lemma fold_update_map_of:
  "distinct (map fst sh) \<Longrightarrow>
   map_of (fold (\<lambda>entry h. AList.update (fst entry) (snd entry) h) sh h) = map_of h ++ map_of sh"
proof (induction sh arbitrary: h)
  case Nil
  show ?case by simp
next
  case (Cons e sh)
  obtain k v where e: "e = (k, v)" by (cases e)
  from Cons.prems e have d: "distinct (map fst sh)" and nk: "k \<notin> fst ` set sh" by auto
  from nk have "map_of sh k = None" by (simp add: map_of_eq_None_iff)
  then have sw: "(map_of h)(k \<mapsto> v) ++ map_of sh = map_of h ++ (map_of sh)(k \<mapsto> v)"
    by (auto simp: map_add_def fun_eq_iff split: option.splits)
  have "map_of (fold (\<lambda>entry h. AList.update (fst entry) (snd entry) h) (e # sh) h)
      = map_of (AList.update k v h) ++ map_of sh"
    using Cons.IH[OF d, of "AList.update k v h"] by (simp add: e)
  also have "\<dots> = (map_of h)(k \<mapsto> v) ++ map_of sh" by (simp only: update_conv')
  also have "\<dots> = map_of h ++ (map_of sh)(k \<mapsto> v)" by (rule sw)
  also have "\<dots> = map_of h ++ map_of (e # sh)" by (simp add: e)
  finally show ?case .
qed

lemma add_session_headers_fields:
  "Method (add_session_headers s req) = Method req"
  "URL (add_session_headers s req) = URL req"
  "ReqBody (add_session_headers s req) = ReqBody req"
  by (simp_all add: add_session_headers_def)

lemma Do_transport_error:
  "httpClient s (dispatch_state L s req g) (add_session_headers s req) = Inl err \<Longrightarrow>
     Do L s req g = ((None, Some err), dispatch_state L s req g)"
  by (simp add: Do_def dispatch_state_def Let_def)

lemma Do_read_error:
  "httpClient s (dispatch_state L s req g) (add_session_headers s req) = Inr resp0 \<Longrightarrow>
   fst (ReadAll (Body resp0)) = Inl err \<Longrightarrow>
     Do L s req g = ((None, Some err), dispatch_state L s req g)"
  by (simp add: Do_def dispatch_state_def Let_def)

lemma DumpResponse_buffered:
  "snd (DumpResponse L \<lparr>Status = st, StatusCode = code, Body = Some (bytes_NewReader b)\<rparr>)
     = \<lparr>Status = st, StatusCode = code, Body = Some (bytes_NewReader b)\<rparr>"
  by (simp add: DumpResponse_def bytes_NewReader_def)

lemma Do_response:
  assumes "httpClient s (dispatch_state L s req g) (add_session_headers s req) = Inr resp0"
    and "fst (ReadAll (Body resp0)) = Inr b"
  shows "fst (Do L s req g) =
     (Some \<lparr>Status = Status resp0, StatusCode = StatusCode resp0,
            Body = Some (bytes_NewReader b)\<rparr>,
      if StatusCode resp0 < 200 \<or> StatusCode resp0 > 299
      then Some (StatusError (Status resp0)) else None)"
proof (cases "Debug g")
  case True
  then have d: "Debug (dispatch_state L s req g)" by (simp add: dispatch_state_def log_Printf_def)
  from assms d show ?thesis
    unfolding Do_def Let_def dispatch_state_def[symmetric]
    by (simp add: DumpResponse_buffered)
next
  case False
  then have d: "\<not> Debug (dispatch_state L s req g)" by (simp add: dispatch_state_def)
  from assms d show ?thesis
    unfolding Do_def Let_def dispatch_state_def[symmetric]
    by simp
qed

subsection \<open>Claim C9\<close>

text \<open>
  C9. \<open>Do\<close> calls the HTTP client on the request it was given with the session's
  default headers written over its header (method, URL and body as they were), and
  what \<open>Do\<close> returns is the client's answer to that request: the response, its body
  buffered, with the status error for a status outside 200 to 299; or the error of
  the client; or the error of reading the body. In the header that is sent, a key of
  the session's headers has the session's value, whatever the request had under
  that key, and any other key has the value of the request. The session's headers
  are a map (distinct keys).
\<close>

theorem Do_session_headers_win:
  "distinct (map fst (Headers s)) \<Longrightarrow>
     (\<forall>resp0 b. httpClient s (dispatch_state L s req g) (add_session_headers s req) = Inr resp0
          \<and> fst (ReadAll (Body resp0)) = Inr b \<longrightarrow>
        fst (Do L s req g) =
          (Some \<lparr>Status = Status resp0, StatusCode = StatusCode resp0,
                 Body = Some (bytes_NewReader b)\<rparr>,
           if StatusCode resp0 < 200 \<or> StatusCode resp0 > 299
           then Some (StatusError (Status resp0)) else None))
   \<and> (\<forall>resp0 err. httpClient s (dispatch_state L s req g) (add_session_headers s req) = Inr resp0
          \<and> fst (ReadAll (Body resp0)) = Inl err \<longrightarrow>
        fst (Do L s req g) = (None, Some err))
   \<and> (\<forall>err. httpClient s (dispatch_state L s req g) (add_session_headers s req) = Inl err \<longrightarrow>
        fst (Do L s req g) = (None, Some err))
   \<and> Method (add_session_headers s req) = Method req
   \<and> URL (add_session_headers s req) = URL req
   \<and> ReqBody (add_session_headers s req) = ReqBody req
   \<and> map_of (Header (add_session_headers s req)) = map_of (Header req) ++ map_of (Headers s)
   \<and> (\<forall>k. k \<in> fst ` set (Headers s) \<longrightarrow>
          map_of (Header (add_session_headers s req)) k = map_of (Headers s) k)
   \<and> (\<forall>k. k \<notin> fst ` set (Headers s) \<longrightarrow>
          map_of (Header (add_session_headers s req)) k = map_of (Header req) k)"
proof -
  assume d: "distinct (map fst (Headers s))"
  have m: "map_of (Header (add_session_headers s req)) = map_of (Header req) ++ map_of (Headers s)"
    by (simp add: add_session_headers_def fold_update_map_of[OF d])
  have i: "\<And>k. k \<in> fst ` set (Headers s) \<Longrightarrow>
      (map_of (Header req) ++ map_of (Headers s)) k = map_of (Headers s) k"
    by (auto simp: map_add_def map_of_eq_None_iff split: option.splits)
  have o: "\<And>k. k \<notin> fst ` set (Headers s) \<Longrightarrow>
      (map_of (Header req) ++ map_of (Headers s)) k = map_of (Header req) k"
    by (simp add: map_add_def map_of_eq_None_iff[symmetric])
  have r: "\<And>resp0 b. httpClient s (dispatch_state L s req g) (add_session_headers s req) = Inr resp0
          \<Longrightarrow> fst (ReadAll (Body resp0)) = Inr b \<Longrightarrow>
        fst (Do L s req g) =
          (Some \<lparr>Status = Status resp0, StatusCode = StatusCode resp0,
                 Body = Some (bytes_NewReader b)\<rparr>,
           if StatusCode resp0 < 200 \<or> StatusCode resp0 > 299
           then Some (StatusError (Status resp0)) else None)"
    by (rule Do_response)
  have e1: "\<And>resp0 err. httpClient s (dispatch_state L s req g) (add_session_headers s req) = Inr resp0
          \<Longrightarrow> fst (ReadAll (Body resp0)) = Inl err \<Longrightarrow> fst (Do L s req g) = (None, Some err)"
    by (simp add: Do_read_error)
  have e2: "\<And>err. httpClient s (dispatch_state L s req g) (add_session_headers s req) = Inl err
          \<Longrightarrow> fst (Do L s req g) = (None, Some err)"
    by (simp add: Do_transport_error)
  show ?thesis
    unfolding m add_session_headers_fields using i o r e1 e2 by blast
qed

theorem Do_session_headers_win_witness:
  "fst (Do example_lib
      ((example_session (echo_header ''Accept''))\<lparr>Headers := [(''Accept'', [''text/plain''])]\<rparr>)
      \<lparr>Method = ''GET'', URL = ''/version'',
       Header = [(''Accept'', [''application/json'']), (''X-Trace'', [''7''])],
       ReqBody = None\<rparr> (example_globals False))
    = (Some \<lparr>Status = ''200 OK'', StatusCode = 200, Body = Some (bytes_NewReader ''text/plain'')\<rparr>,
       None)
   \<and> fst (Do example_lib
      ((example_session (echo_header ''X-Trace''))\<lparr>Headers := [(''Accept'', [''text/plain''])]\<rparr>)
      \<lparr>Method = ''GET'', URL = ''/version'',
       Header = [(''Accept'', [''application/json'']), (''X-Trace'', [''7''])],
       ReqBody = None\<rparr> (example_globals False))
    = (Some \<lparr>Status = ''200 OK'', StatusCode = 200, Body = Some (bytes_NewReader ''7'')\<rparr>, None)"
proof
  let ?req = "\<lparr>Method = ''GET'', URL = ''/version'',
       Header = [(''Accept'', [''application/json'']), (''X-Trace'', [''7''])],
       ReqBody = None\<rparr>"
  let ?g = "example_globals False"
  show "fst (Do example_lib
      ((example_session (echo_header ''Accept''))\<lparr>Headers := [(''Accept'', [''text/plain''])]\<rparr>)
      ?req ?g)
    = (Some \<lparr>Status = ''200 OK'', StatusCode = 200, Body = Some (bytes_NewReader ''text/plain'')\<rparr>,
       None)"
  proof -
    let ?s = "(example_session (echo_header ''Accept''))\<lparr>Headers := [(''Accept'', [''text/plain''])]\<rparr>"
    let ?resp0 = "\<lparr>Status = ''200 OK'', StatusCode = 200, Body = bytes_NewReader ''text/plain''\<rparr>"
    have d: "distinct (map fst (Headers ?s))" by (simp add: example_session_def)
    note t = Do_session_headers_win[OF d, where req = ?req and L = example_lib and g = ?g]
    have k: "''Accept'' \<in> fst ` set (Headers ?s)" by (simp add: example_session_def)
    have hs: "map_of (Headers ?s) ''Accept'' = Some [''text/plain'']"
      by (simp add: example_session_def)
    from t k hs have a: "map_of (Header (add_session_headers ?s ?req)) ''Accept'' = Some [''text/plain'']"
      by metis
    have hc: "httpClient ?s = echo_header ''Accept''" by (simp add: example_session_def)
    have c: "httpClient ?s (dispatch_state example_lib ?s ?req ?g) (add_session_headers ?s ?req)
        = Inr ?resp0"
      unfolding hc echo_header_def a by simp
    have rd: "fst (ReadAll (Body ?resp0)) = Inr ''text/plain''" by (simp add: bytes_NewReader_def)
    from t c rd have "fst (Do example_lib ?s ?req ?g) =
          (Some \<lparr>Status = Status ?resp0, StatusCode = StatusCode ?resp0,
                 Body = Some (bytes_NewReader ''text/plain'')\<rparr>,
           if StatusCode ?resp0 < 200 \<or> StatusCode ?resp0 > 299
           then Some (StatusError (Status ?resp0)) else None)"
      by blast
    then show ?thesis by simp
  qed
  show "fst (Do example_lib
      ((example_session (echo_header ''X-Trace''))\<lparr>Headers := [(''Accept'', [''text/plain''])]\<rparr>)
      ?req ?g)
    = (Some \<lparr>Status = ''200 OK'', StatusCode = 200, Body = Some (bytes_NewReader ''7'')\<rparr>, None)"
  proof -
    let ?s = "(example_session (echo_header ''X-Trace''))\<lparr>Headers := [(''Accept'', [''text/plain''])]\<rparr>"
    let ?resp0 = "\<lparr>Status = ''200 OK'', StatusCode = 200, Body = bytes_NewReader ''7''\<rparr>"
    have d: "distinct (map fst (Headers ?s))" by (simp add: example_session_def)
    note t = Do_session_headers_win[OF d, where req = ?req and L = example_lib and g = ?g]
    have k: "''X-Trace'' \<notin> fst ` set (Headers ?s)" by (simp add: example_session_def)
    have hr: "map_of (Header ?req) ''X-Trace'' = Some [''7'']" by simp
    from t k hr have a: "map_of (Header (add_session_headers ?s ?req)) ''X-Trace'' = Some [''7'']"
      by metis
    have hc: "httpClient ?s = echo_header ''X-Trace''" by (simp add: example_session_def)
    have c: "httpClient ?s (dispatch_state example_lib ?s ?req ?g) (add_session_headers ?s ?req)
        = Inr ?resp0"
      unfolding hc echo_header_def a by simp
    have rd: "fst (ReadAll (Body ?resp0)) = Inr ''7''" by (simp add: bytes_NewReader_def)
    from t c rd have "fst (Do example_lib ?s ?req ?g) =
          (Some \<lparr>Status = Status ?resp0, StatusCode = StatusCode ?resp0,
                 Body = Some (bytes_NewReader ''7'')\<rparr>,
           if StatusCode ?resp0 < 200 \<or> StatusCode ?resp0 > 299
           then Some (StatusError (Status ?resp0)) else None)"
      by blast
    then show ?thesis by simp
  qed
qed

lemma Do_Some_resp:
  assumes "fst (Do L s req g) = (Some resp, err)"
  shows "\<exists>b resp0. httpClient s (dispatch_state L s req g) (add_session_headers s req) = Inr resp0
           \<and> fst (ReadAll (Body resp0)) = Inr b
           \<and> Body resp = Some (bytes_NewReader b)"
proof -
  let ?g1 = "dispatch_state L s req g"
  from assms obtain resp0 where r0: "httpClient s ?g1 (add_session_headers s req) = Inr resp0"
    by (cases "httpClient s ?g1 (add_session_headers s req)")
      (auto simp: Do_def Let_def dispatch_state_def)
  from assms r0 obtain b where b: "fst (ReadAll (Body resp0)) = Inr b"
    by (cases "fst (ReadAll (Body resp0))") (auto simp: Do_def Let_def dispatch_state_def)
  from assms r0 b have "Body resp = Some (bytes_NewReader b)"
    by (auto simp: Do_def Let_def dispatch_state_def DumpResponse_def bytes_NewReader_def
        split: if_splits)
  with r0 b show ?thesis by blast
qed

lemma Do_example:
  "fst (Do example_lib (example_session (respond ''200 OK'' 200 ''{}''))
      \<lparr>Method = ''GET'', URL = ''/version'', Header = [], ReqBody = None\<rparr> (example_globals False))
    = (Some \<lparr>Status = ''200 OK'', StatusCode = 200, Body = Some (bytes_NewReader ''{}'')\<rparr>, None)"
  by (simp add: Do_def add_session_headers_def example_session_def respond_def
      example_globals_def bytes_NewReader_def Let_def)

subsection \<open>Claim C7\<close>

text \<open>
  C7, as amended. The body of every response that \<open>Do\<close> returns is a reader over
  bytes held in memory, namely the bytes that the body of the client's response
  delivered: it can be read to its end once, and that read yields those bytes;
  reading is a function of the reader alone, the client is not involved. The reader
  is then at its end: a second read yields no bytes.
\<close>

theorem Do_body_buffered:
  "fst (Do L s req g) = (Some resp, err) \<Longrightarrow>
     \<exists>b resp0. httpClient s (dispatch_state L s req g) (add_session_headers s req) = Inr resp0
       \<and> fst (ReadAll (Body resp0)) = Inr b
       \<and> Body resp = Some (bytes_NewReader b)
       \<and> ReadAll (bytes_NewReader b) = (Inr b, bytes_NewReader [])
       \<and> ReadAll (snd (ReadAll (bytes_NewReader b))) = (Inr [], bytes_NewReader [])"
proof -
  assume "fst (Do L s req g) = (Some resp, err)"
  from Do_Some_resp[OF this] obtain b resp0 where
    "httpClient s (dispatch_state L s req g) (add_session_headers s req) = Inr resp0"
    "fst (ReadAll (Body resp0)) = Inr b"
    "Body resp = Some (bytes_NewReader b)"
    by blast
  moreover have "ReadAll (bytes_NewReader b) = (Inr b, bytes_NewReader [])"
    "ReadAll (snd (ReadAll (bytes_NewReader b))) = (Inr [], bytes_NewReader [])"
    by (simp_all add: bytes_NewReader_def)
  ultimately show ?thesis by blast
qed

theorem Do_body_buffered_witness:
  "fst (Do example_lib (example_session (respond ''200 OK'' 200 ''{}''))
      \<lparr>Method = ''GET'', URL = ''/version'', Header = [], ReqBody = None\<rparr> (example_globals False))
    = (Some \<lparr>Status = ''200 OK'', StatusCode = 200, Body = Some (bytes_NewReader ''{}'')\<rparr>, None)
   \<and> ReadAll (bytes_NewReader ''{}'') = (Inr ''{}'', bytes_NewReader [])
   \<and> ReadAll (snd (ReadAll (bytes_NewReader ''{}''))) = (Inr [], bytes_NewReader [])"
proof -
  from Do_body_buffered[OF Do_example] obtain b where
    "Some (bytes_NewReader ''{}'') = Some (bytes_NewReader b)"
    "ReadAll (bytes_NewReader b) = (Inr b, bytes_NewReader [])"
    "ReadAll (snd (ReadAll (bytes_NewReader b))) = (Inr [], bytes_NewReader [])"
    by auto
  moreover from this(1) have "b = ''{}''" by (simp add: bytes_NewReader_def)
  ultimately show ?thesis using Do_example by simp
qed

text \<open>
  C7 as stated fails: after the body \<^verbatim>\<open>{}\<close> has been read to its end, the next read
  to its end yields the empty sequence, not the same bytes.
\<close>

theorem Do_body_second_read_counterexample:
  "fst (Do example_lib (example_session (respond ''200 OK'' 200 ''{}''))
      \<lparr>Method = ''GET'', URL = ''/version'', Header = [], ReqBody = None\<rparr> (example_globals False))
    = (Some \<lparr>Status = ''200 OK'', StatusCode = 200, Body = Some (bytes_NewReader ''{}'')\<rparr>, None)
   \<and> fst (ReadAll (bytes_NewReader ''{}'')) = Inr ''{}''
   \<and> fst (ReadAll (snd (ReadAll (bytes_NewReader ''{}'')))) = Inr []"
  by (simp add: Do_def add_session_headers_def example_session_def respond_def
      example_globals_def bytes_NewReader_def Let_def)

section \<open>Properties of session construction\<close>




subsection \<open>Claim C8\<close>




section \<open>Properties of the typed decoder\<close>

lemma decode_envelope:
  assumes "Body resp = Some (bytes_NewReader body)" "body \<noteq> []"
  shows "decodeResponse L (store_intermediate L) resp None =
     (case json_parse L body of
        Inl msg \<Rightarrow> (None, Some (LibError msg))
      | Inr j \<Rightarrow> store_intermediate L j None)"
  using assms by (simp add: decodeResponse_def json_Unmarshal_def bytes_NewReader_def)

lemma store_Data_filter:
  "store_Data L ds res = store_Data L (filter (\<lambda>m. field_match L ''result'' (fst m)) ds) res"
  unfolding store_Data_def by (induction ds arbitrary: res) simp_all

lemma store_intermediate_filter:
  "fold (store_intermediate_member L) ms st
     = fold (store_intermediate_member L) (filter (\<lambda>m. field_match L ''data'' (fst m)) ms) st"
  by (induction ms arbitrary: st) (simp_all add: store_intermediate_member_def)

lemma store_intermediate_data:
  assumes "filter (\<lambda>m. field_match L ''data'' (fst m)) ms = [(kd, j)]"
  shows "store_intermediate L (JObject ms) None = store_intermediate_member L (kd, j) (None, None)"
  unfolding store_intermediate_def by (simp add: store_intermediate_filter[of L ms] assms)

lemma filter_single_match:
  "filter (\<lambda>m. P (fst m)) ms = [(k, x)] \<Longrightarrow> P k"
proof -
  assume a: "filter (\<lambda>m. P (fst m)) ms = [(k, x)]"
  have "(k, x) \<in> set (filter (\<lambda>m. P (fst m)) ms)" by (simp add: a)
  then show "P k" by simp
qed

lemma store_intermediate_unique:
  assumes "filter (\<lambda>m. field_match L ''data'' (fst m)) ms = [(kd, JObject ds)]"
    and "filter (\<lambda>m. field_match L ''result'' (fst m)) ds = [(kr, R)]"
  shows "store_intermediate L (JObject ms) None = (Some R, None)"
proof -
  have d: "field_match L ''data'' kd" using assms(1) by (rule filter_single_match)
  have r: "field_match L ''result'' kr" using assms(2) by (rule filter_single_match)
  have "store_Data L ds None = Some R"
    by (subst store_Data_filter) (simp add: assms(2) store_Data_def r)
  then show ?thesis
    by (simp add: store_intermediate_data[OF assms(1)] store_intermediate_member_def d)
qed

lemma store_intermediate_no_result:
  assumes "filter (\<lambda>m. field_match L ''data'' (fst m)) ms = [(kd, JObject ds)]"
    and "filter (\<lambda>m. field_match L ''result'' (fst m)) ds = []"
  shows "store_intermediate L (JObject ms) None = (None, None)"
proof -
  have d: "field_match L ''data'' kd" using assms(1) by (rule filter_single_match)
  have "store_Data L ds None = None"
    by (subst store_Data_filter) (simp add: assms(2) store_Data_def)
  then show ?thesis
    by (simp add: store_intermediate_data[OF assms(1)] store_intermediate_member_def d)
qed

lemma store_no_result:
  "store_intermediate L (JObject [(''data'', JObject [])]) None = (None, None)"
  by (simp add: store_intermediate_def store_intermediate_member_def store_Data_def field_match_def)

text \<open>
  When the envelope error is returned: the body is not valid JSON, its value is
  neither an object nor \<^verbatim>\<open>null\<close>, or its one member for \<^verbatim>\<open>data\<close> is neither.
\<close>

lemma envelope_error_cases:
  assumes "Body resp = Some (bytes_NewReader body)" "body \<noteq> []"
  shows "json_parse L body = Inl msg \<Longrightarrow>
      TypedResponse L store resp v = (v, Some (ReadingEnvelope (LibError msg)))"
    and "json_parse L body = Inr j \<Longrightarrow> j \<noteq> JNull \<Longrightarrow> \<forall>ms. j \<noteq> JObject ms \<Longrightarrow>
      TypedResponse L store resp v = (v, Some (ReadingEnvelope (UnmarshalTypeError (json_kind j))))"
    and "json_parse L body = Inr (JObject ms) \<Longrightarrow>
      filter (\<lambda>m. field_match L ''data'' (fst m)) ms = [(kd, j)] \<Longrightarrow>
      j \<noteq> JNull \<Longrightarrow> \<forall>ds. j \<noteq> JObject ds \<Longrightarrow>
      TypedResponse L store resp v = (v, Some (ReadingEnvelope (UnmarshalTypeError (json_kind j))))"
proof -
  note d = decode_envelope[OF assms, of L]
  show "json_parse L body = Inl msg \<Longrightarrow>
      TypedResponse L store resp v = (v, Some (ReadingEnvelope (LibError msg)))"
    unfolding TypedResponse_def d by simp
  show "json_parse L body = Inr j \<Longrightarrow> j \<noteq> JNull \<Longrightarrow> \<forall>ms. j \<noteq> JObject ms \<Longrightarrow>
      TypedResponse L store resp v = (v, Some (ReadingEnvelope (UnmarshalTypeError (json_kind j))))"
    unfolding TypedResponse_def d by (cases j) (simp_all add: store_intermediate_def)
  show "json_parse L body = Inr (JObject ms) \<Longrightarrow>
      filter (\<lambda>m. field_match L ''data'' (fst m)) ms = [(kd, j)] \<Longrightarrow>
      j \<noteq> JNull \<Longrightarrow> \<forall>ds. j \<noteq> JObject ds \<Longrightarrow>
      TypedResponse L store resp v = (v, Some (ReadingEnvelope (UnmarshalTypeError (json_kind j))))"
  proof -
    assume p: "json_parse L body = Inr (JObject ms)"
      and f: "filter (\<lambda>m. field_match L ''data'' (fst m)) ms = [(kd, j)]"
      and n: "j \<noteq> JNull" "\<forall>ds. j \<noteq> JObject ds"
    have m: "field_match L ''data'' kd" using f by (rule filter_single_match)
    from n have "store_intermediate_member L (kd, j) (None, None)
        = (None, Some (UnmarshalTypeError (json_kind j)))"
      by (cases j) (simp_all add: store_intermediate_member_def m first_error_def)
    then show ?thesis
      unfolding TypedResponse_def d by (simp add: p store_intermediate_data[OF f])
  qed
qed

subsection \<open>Claim C5\<close>

text \<open>
  C5, as amended. For a body that denotes \<^verbatim>\<open>{"data":{"result":R}}\<close>, \<open>TypedResponse\<close>
  stores exactly \<open>R\<close> in the destination, and an error of that store is returned as
  the result-decode error; the same holds when the two objects have further
  members, as long as one member only is for \<^verbatim>\<open>data\<close> and one only for \<^verbatim>\<open>result\<close>. For
  a body that denotes \<^verbatim>\<open>{"data":{}}\<close>, or any body whose \<^verbatim>\<open>data\<close> object has no member
  for \<^verbatim>\<open>result\<close>, it fails and the destination is left as it was; the error is the
  result-decode error as well (unmarshalling the empty raw message: unexpected end
  of JSON input), not the envelope error.
\<close>

theorem TypedResponse_envelope:
  "Body resp = Some (bytes_NewReader body) \<Longrightarrow> body \<noteq> [] \<Longrightarrow>
     (json_parse L body = Inr (JObject [(''data'', JObject [(''result'', R)])]) \<longrightarrow>
        TypedResponse L store resp v =
          (case store R v of
             (v', Some err) \<Rightarrow> (v', Some (UnmarshallingResult err))
           | (v', None) \<Rightarrow> (v', None)))
   \<and> (\<forall>ms kd ds kr.
        json_parse L body = Inr (JObject ms)
        \<and> filter (\<lambda>m. field_match L ''data'' (fst m)) ms = [(kd, JObject ds)]
        \<and> filter (\<lambda>m. field_match L ''result'' (fst m)) ds = [(kr, R)] \<longrightarrow>
        TypedResponse L store resp v =
          (case store R v of
             (v', Some err) \<Rightarrow> (v', Some (UnmarshallingResult err))
           | (v', None) \<Rightarrow> (v', None)))
   \<and> (json_parse L body = Inr (JObject [(''data'', JObject [])]) \<longrightarrow>
        TypedResponse L store resp v =
          (v, Some (UnmarshallingResult (LibError ''unexpected end of JSON input''))))
   \<and> (\<forall>ms kd ds.
        json_parse L body = Inr (JObject ms)
        \<and> filter (\<lambda>m. field_match L ''data'' (fst m)) ms = [(kd, JObject ds)]
        \<and> filter (\<lambda>m. field_match L ''result'' (fst m)) ds = [] \<longrightarrow>
        TypedResponse L store resp v =
          (v, Some (UnmarshallingResult (LibError ''unexpected end of JSON input''))))"
  (is "_ \<Longrightarrow> _ \<Longrightarrow> ?A \<and> ?B \<and> ?C \<and> ?D")
proof -
  assume a: "Body resp = Some (bytes_NewReader body)" "body \<noteq> []"
  note d = decode_envelope[OF a, of L]
  have "?A" "?C"
    unfolding TypedResponse_def d
    by (simp_all add: Unmarshal_RawMessage_def store_intermediate_def store_intermediate_member_def
        store_Data_def field_match_def)
  moreover have "?B"
    unfolding TypedResponse_def d
    by (auto simp: store_intermediate_unique Unmarshal_RawMessage_def)
  moreover have "?D"
    unfolding TypedResponse_def d
    by (auto simp: store_intermediate_no_result Unmarshal_RawMessage_def)
  ultimately show ?thesis by blast
qed

theorem TypedResponse_envelope_witness:
  \<open>TypedResponse example_lib (store_dest example_lib)
      \<lparr>Status = ''200 OK'', StatusCode = 200,
       Body = Some (bytes_NewReader ''{"data":{"result":{"x":1}}}'')\<rparr> \<lparr>X = 0\<rparr>
    = (\<lparr>X = 1\<rparr>, None)\<close>
proof -
  let ?body = \<open>''{"data":{"result":{"x":1}}}''\<close>
  let ?resp = "\<lparr>Status = ''200 OK'', StatusCode = 200, Body = Some (bytes_NewReader ?body)\<rparr>"
  have b: "Body ?resp = Some (bytes_NewReader ?body)" by simp
  have n: "?body \<noteq> []" by simp
  have p: "json_parse example_lib ?body
      = Inr (JObject [(''data'', JObject [(''result'', JObject [(''x'', JNumber 1)])])])"
    by (simp add: example_lib_def example_documents_def)
  have s: "store_dest example_lib (JObject [(''x'', JNumber 1)]) \<lparr>X = 0\<rparr> = (\<lparr>X = 1\<rparr>, None)"
    by (simp add: store_dest_def store_dest_member_def field_match_def example_lib_def
        ascii_EqualFold_def to_upper_def char_of_eq_iff)
  from TypedResponse_envelope[OF b n, where L = example_lib and R = "JObject [(''x'', JNumber 1)]"
      and store = "store_dest example_lib" and v = "\<lparr>X = 0\<rparr>"] p s
  show ?thesis by simp
qed

text \<open>
  C5 as stated fails on the body \<^verbatim>\<open>{"data":{}}\<close>: the error is
  \<open>UnmarshallingResult\<close>, the error of the inner decoding, and not \<open>ReadingEnvelope\<close>.
\<close>

theorem TypedResponse_missing_result_counterexample:
  \<open>TypedResponse example_lib (store_dest example_lib)
      \<lparr>Status = ''200 OK'', StatusCode = 200, Body = Some (bytes_NewReader ''{"data":{}}'')\<rparr>
      \<lparr>X = 0\<rparr>
    = (\<lparr>X = 0\<rparr>, Some (UnmarshallingResult (LibError ''unexpected end of JSON input'')))\<close>
  by (simp add: TypedResponse_def decodeResponse_def json_Unmarshal_def bytes_NewReader_def
      example_lib_def example_documents_def store_no_result Unmarshal_RawMessage_def)

section \<open>Properties of \<open>Login\<close>\<close>

lemma Post_example:
  "Post example_lib (example_session (respond ''200 OK'' 200 body)) ''/access/ticket'' None
      SessionHeaders (Some reqbody) (example_globals False)
   = ((Some \<lparr>Status = ''200 OK'', StatusCode = 200, Body = Some (bytes_NewReader body)\<rparr>, None),
      (example_session (respond ''200 OK'' 200 body))\<lparr>Headers := [(''Accept'', [''application/json''])]\<rparr>,
      example_globals False)"
  by (simp add: Post_def Request_def NewRequest_def http_NewRequest_def Do_def
      add_session_headers_def write_through_def shares_session_def example_lib_def
      example_session_def respond_def example_globals_def bytes_NewReader_def Let_def)

lemma Login_body_missing_ticket:
  assumes "map_of jbody ''data'' = Some (JObject ms)"
    and "map_of (go_map ms []) ''NeedTFA'' \<noteq> Some (JNumber 1)"
    and "map_of (go_map ms []) ''ticket'' = None"
  shows "Login_body dr (Some jbody) s = (Panics ''string'', s)"
  using assms by (simp add: Login_body_def is_nil_def Let_def)

subsection \<open>Claim C4\<close>

text \<open>
  C4 does not hold of the code. The response \<^verbatim>\<open>200 OK\<close> with the body
  \<^verbatim>\<open>{"data":{}}\<close> has neither \<^verbatim>\<open>ticket\<close> nor \<^verbatim>\<open>CSRFPreventionToken\<close>; \<open>Login\<close> does not
  return an error for it but panics at the type assertion \<^verbatim>\<open>dat["ticket"].(string)\<close>.
\<close>

theorem Login_missing_ticket_panics:
  \<open>fst (Login example_lib (example_session (respond ''200 OK'' 200 ''{"data":{}}''))
      ''root@pam'' ''wrong'' [] (example_globals False)) = Panics ''string''\<close>
proof -
  have g: "(example_globals False)\<lparr>Debug := False\<rparr> = example_globals False"
    by (simp add: example_globals_def)
  have j: \<open>ResponseJSON example_lib
      \<lparr>Status = ''200 OK'', StatusCode = 200, Body = Some (bytes_NewReader ''{"data":{}}'')\<rparr>
    = (Some [(''data'', JObject [])], None)\<close>
    by (simp add: ResponseJSON_def decodeResponse_def json_Unmarshal_def bytes_NewReader_def
        example_lib_def example_documents_def go_map_def)
  have d: \<open>snd (DumpResponse example_lib
      \<lparr>Status = ''200 OK'', StatusCode = 200, Body = Some (bytes_NewReader ''{"data":{}}'')\<rparr>)
    = \<lparr>Status = ''200 OK'', StatusCode = 200, Body = Some (bytes_NewReader ''{"data":{}}'')\<rparr>\<close>
    by (simp add: DumpResponse_def bytes_NewReader_def)
  have b: "fst (Login_body dr (Some [(''data'', JObject [])]) s) = Panics ''string''" for dr s
    by (simp add: Login_body_def is_nil_def go_map_def)
  show ?thesis
    unfolding Login_def Let_def g Post_example by (simp add: d j b)
qed

lemma Do_quiet: "\<not> Debug g \<Longrightarrow> snd (Do L s req g) = g"
  by (simp add: Do_def Let_def split: sum.splits)

lemma Debug_off_same: "\<not> Debug g \<Longrightarrow> g\<lparr>Debug := False\<rparr> = g"
  by (cases g) simp

lemma with_Debug_off_quiet: "\<not> Debug g \<Longrightarrow> with_Debug_off c g = c g"
  by (rule ext) (simp add: with_Debug_off_def Debug_off_same)

lemma Do_Debug_off:
  "\<not> Debug g \<Longrightarrow>
     fst (Do L (s\<lparr>httpClient := with_Debug_off c\<rparr>) req g) = fst (Do L (s\<lparr>httpClient := c\<rparr>) req g)"
  by (simp add: Do_def Let_def add_session_headers_def with_Debug_off_quiet)

lemma NewRequest_client:
  "NewRequest L (s\<lparr>httpClient := c\<rparr>) method url headers body =
     (fst (NewRequest L s method url headers body),
      (snd (NewRequest L s method url headers body))\<lparr>httpClient := c\<rparr>)"
  by (cases headers)
    (simp_all add: NewRequest_def Let_def write_through_def shares_session_def split: sum.splits)

lemma Request_quiet: "\<not> Debug g \<Longrightarrow> snd (snd (Request L s method url params headers body g)) = g"
  by (simp add: Request_def Let_def Do_quiet split_beta split: sum.splits prod.splits)

lemma Request_Debug_off:
  assumes "\<not> Debug g"
  shows "fst (Request L (s\<lparr>httpClient := with_Debug_off c\<rparr>) method url params headers body g)
           = fst (Request L (s\<lparr>httpClient := c\<rparr>) method url params headers body g)"
    and "(fst (snd (Request L (s\<lparr>httpClient := with_Debug_off c\<rparr>) method url params headers body g)))
            \<lparr>httpClient := c\<rparr>
           = fst (snd (Request L (s\<lparr>httpClient := c\<rparr>) method url params headers body g))"
proof -
  let ?url = "case params of None \<Rightarrow> ApiUrl s @ url | Some p \<Rightarrow> (ApiUrl s @ url) @ ''?'' @ Encode L p"
  let ?buf = "case body of None \<Rightarrow> None | Some b \<Rightarrow> Some (bytes_NewReader b)"
  let ?N = "NewRequest L s method ?url headers ?buf"
  show "fst (Request L (s\<lparr>httpClient := with_Debug_off c\<rparr>) method url params headers body g)
           = fst (Request L (s\<lparr>httpClient := c\<rparr>) method url params headers body g)"
  proof (cases "fst ?N")
    case (Inl err)
    then show ?thesis
      by (simp add: Request_def Let_def NewRequest_client split_beta)
  next
    case (Inr req)
    have w: "write_through headers h (t\<lparr>httpClient := x\<rparr>) = (write_through headers h t)\<lparr>httpClient := x\<rparr>"
      for h t x by (simp add: write_through_def)
    from Inr show ?thesis
      by (simp add: Request_def Let_def NewRequest_client split_beta w Do_Debug_off[OF assms])
  qed
  show "(fst (snd (Request L (s\<lparr>httpClient := with_Debug_off c\<rparr>) method url params headers body g)))
            \<lparr>httpClient := c\<rparr>
           = fst (snd (Request L (s\<lparr>httpClient := c\<rparr>) method url params headers body g))"
    by (cases "fst ?N")
      (simp_all add: Request_def Let_def NewRequest_client split_beta write_through_def)
qed

lemma Post_quiet: "\<not> Debug g \<Longrightarrow> snd (snd (Post L s url params headers body g)) = g"
  by (simp add: Post_def Let_def Request_quiet)

lemma Post_Debug_off:
  assumes "\<not> Debug g"
  shows "fst (Post L (s\<lparr>httpClient := with_Debug_off c\<rparr>) url params headers body g)
           = fst (Post L (s\<lparr>httpClient := c\<rparr>) url params headers body g)"
    and "(fst (snd (Post L (s\<lparr>httpClient := with_Debug_off c\<rparr>) url params headers body g)))
            \<lparr>httpClient := c\<rparr>
           = fst (snd (Post L (s\<lparr>httpClient := c\<rparr>) url params headers body g))"
  using Request_Debug_off[OF assms] by (simp_all add: Post_def Let_def)

lemma Login_globals: "snd (snd (Login L s username password otp g)) = g"
proof -
  have q: "snd (snd (Post L s ''/access/ticket'' None SessionHeaders (Some b) (g\<lparr>Debug := False\<rparr>)))
      = g\<lparr>Debug := False\<rparr>" for b
    by (rule Post_quiet) simp
  have r: "(g\<lparr>Debug := False\<rparr>)\<lparr>Debug := Debug g\<rparr> = g" by simp
  show ?thesis
    by (simp add: Login_def Let_def q r split: option.splits)
qed

lemma Login_body_client:
  "fst (Login_body dr jbody (s\<lparr>httpClient := c\<rparr>)) = fst (Login_body dr jbody s)"
  "snd (Login_body dr jbody (s\<lparr>httpClient := c\<rparr>)) = (snd (Login_body dr jbody s))\<lparr>httpClient := c\<rparr>"
  by (simp_all add: Login_body_def Let_def split: option.splits json.splits)

lemma Login_Debug_off:
  "fst (Login L (s\<lparr>httpClient := with_Debug_off (httpClient s)\<rparr>) username password otp g)
     = fst (Login L s username password otp g)"
  "(fst (snd (Login L (s\<lparr>httpClient := with_Debug_off (httpClient s)\<rparr>) username password otp g)))
       \<lparr>httpClient := httpClient s\<rparr>
     = fst (snd (Login L s username password otp g))"
proof -
  let ?c = "httpClient s"
  let ?g = "g\<lparr>Debug := False\<rparr>"
  let ?s' = "s\<lparr>httpClient := with_Debug_off ?c\<rparr>"
  have s: "s\<lparr>httpClient := ?c\<rparr> = s" by simp
  have q: "\<not> Debug ?g" by simp
  note p = Post_Debug_off[OF q, where s = s and c = ?c, unfolded s]
  have f: "fst (Post L ?s' ''/access/ticket'' None SessionHeaders (Some b) ?g)
      = fst (Post L s ''/access/ticket'' None SessionHeaders (Some b) ?g)" for b
    by (rule p(1))
  have t: "(fst (snd (Post L ?s' ''/access/ticket'' None SessionHeaders (Some b) ?g)))
        \<lparr>httpClient := ?c\<rparr>
      = fst (snd (Post L s ''/access/ticket'' None SessionHeaders (Some b) ?g))" for b
    by (rule p(2))
  have b1: "fst (Login_body dr jbody
        (fst (snd (Post L ?s' ''/access/ticket'' None SessionHeaders (Some b) ?g))))
      = fst (Login_body dr jbody
        (fst (snd (Post L s ''/access/ticket'' None SessionHeaders (Some b) ?g))))"
    for dr jbody b
    using Login_body_client(1)[where c = ?c and dr = dr and jbody = jbody
        and s = "fst (snd (Post L ?s' ''/access/ticket'' None SessionHeaders (Some b) ?g))"]
    by (simp only: t)
  have b2: "(snd (Login_body dr jbody
        (fst (snd (Post L ?s' ''/access/ticket'' None SessionHeaders (Some b) ?g)))))
        \<lparr>httpClient := ?c\<rparr>
      = snd (Login_body dr jbody
        (fst (snd (Post L s ''/access/ticket'' None SessionHeaders (Some b) ?g))))"
    for dr jbody b
    using Login_body_client(2)[where c = ?c and dr = dr and jbody = jbody
        and s = "fst (snd (Post L ?s' ''/access/ticket'' None SessionHeaders (Some b) ?g))"]
    by (simp add: t)
  show "fst (Login L ?s' username password otp g) = fst (Login L s username password otp g)"
    unfolding Login_def Let_def f by (simp add: b1 split: option.splits)
  show "(fst (snd (Login L ?s' username password otp g)))\<lparr>httpClient := ?c\<rparr>
     = fst (snd (Login L s username password otp g))"
    unfolding Login_def Let_def f by (simp add: b2 t split: option.splits)
qed

subsection \<open>Claim C3\<close>

text \<open>
  C3. Whatever the value of \<open>Debug\<close> before the call and whatever the outcome (no
  error, an error of the login, an error of the transport, and also a panic at one
  of the type assertions), the state of the process after \<open>Login\<close> is the state
  before it: \<open>Debug\<close> has its initial value and nothing has been logged. While the
  request with the credentials is sent, \<open>Debug\<close> is false: \<open>Login\<close> behaves the
  same when its client is replaced by one that is run with \<open>Debug\<close> set to false.
\<close>

theorem Login_restores_Debug:
  "snd (snd (Login L s username password otp g)) = g
   \<and> Debug (snd (snd (Login L s username password otp g))) = Debug g
   \<and> log_output (snd (snd (Login L s username password otp g))) = log_output g
   \<and> fst (Login L (s\<lparr>httpClient := with_Debug_off (httpClient s)\<rparr>) username password otp g)
       = fst (Login L s username password otp g)
   \<and> (fst (snd (Login L (s\<lparr>httpClient := with_Debug_off (httpClient s)\<rparr>) username password otp g)))
         \<lparr>httpClient := httpClient s\<rparr>
       = fst (snd (Login L s username password otp g))"
  using Login_globals Login_Debug_off by simp

end
